theory Spec2Isabelle
  imports Main "HOL-Library.Sublist"
begin

section \<open>Python strings\<close>

text \<open>
  A Python \<open>str\<close> is a sequence of Unicode code points, so it is modelled as a list of
  natural numbers (one per code point), not as a list of bytes. \<open>ascii\<close> turns an
  ASCII literal into such a string.
\<close>

type_synonym ustring = "nat list"

definition ascii :: "string \<Rightarrow> ustring" where
  "ascii s = map of_char s"

text \<open>
  \<open>str.isspace\<close> on one character, which is also what \<open>str.strip()\<close> removes and what
  \<open>\s\<close> matches in a \<open>re\<close> pattern over \<open>str\<close>.
\<close>

definition isspace :: "nat \<Rightarrow> bool" where
  "isspace c \<longleftrightarrow>
     (0x09 \<le> c \<and> c \<le> 0x0D) \<or> (0x1C \<le> c \<and> c \<le> 0x20) \<or> c = 0x85 \<or> c = 0xA0 \<or>
     c = 0x1680 \<or> (0x2000 \<le> c \<and> c \<le> 0x200A) \<or> c = 0x2028 \<or> c = 0x2029 \<or>
     c = 0x202F \<or> c = 0x205F \<or> c = 0x3000"

text \<open>
  \<open>\d\<close> in a \<open>re\<close> pattern over \<open>str\<close> matches every Unicode decimal digit. The ASCII
  digits are fixed; the table of the other decimal digits belongs to the Unicode database
  of the interpreter and is the parameter \<open>nd\<close> of everything that uses a pattern.
  No decimal digit is a whitespace character.
\<close>

definition isdecimal :: "(nat \<Rightarrow> bool) \<Rightarrow> nat \<Rightarrow> bool" where
  "isdecimal nd c \<longleftrightarrow> (0x30 \<le> c \<and> c \<le> 0x39) \<or> (0x80 \<le> c \<and> \<not> isspace c \<and> nd c)"

text \<open>\<open>s.strip()\<close>\<close>

definition strip :: "ustring \<Rightarrow> ustring" where
  "strip s = rev (dropWhile isspace (rev (dropWhile isspace s)))"

text \<open>\<open>sub in s\<close>: some suffix of \<open>s\<close> starts with \<open>sub\<close>.\<close>

fun contains :: "ustring \<Rightarrow> ustring \<Rightarrow> bool" where
  "contains sub [] = (sub = [])"
| "contains sub (c # cs) = (prefix sub (c # cs) \<or> contains sub cs)"

text \<open>
  \<open>s.replace(old, new)\<close>: the occurrences of \<open>old\<close> are found from left to right and do
  not overlap. An empty \<open>old\<close> matches before every character and at the end.
\<close>

fun replace_from :: "ustring \<Rightarrow> ustring \<Rightarrow> ustring \<Rightarrow> ustring" where
  "replace_from old new [] = []"
| "replace_from old new (c # cs) =
     (if prefix old (c # cs) then new @ replace_from old new (drop (length old - 1) cs)
      else c # replace_from old new cs)"

definition str_replace :: "ustring \<Rightarrow> ustring \<Rightarrow> ustring \<Rightarrow> ustring" where
  "str_replace old new s =
     (if old = [] then new @ concat (map (\<lambda>c. c # new) s) else replace_from old new s)"

text \<open>\<open>s.split(sep)\<close> for a separator of one character, and \<open>sep.join(parts)\<close>.\<close>

fun split_char :: "nat \<Rightarrow> ustring \<Rightarrow> ustring list" where
  "split_char sep [] = [[]]"
| "split_char sep (c # cs) =
     (case split_char sep cs of
        [] \<Rightarrow> [[]]
      | p # ps \<Rightarrow> if c = sep then [] # p # ps else (c # p) # ps)"

fun join :: "ustring \<Rightarrow> ustring list \<Rightarrow> ustring" where
  "join sep [] = []"
| "join sep [p] = p"
| "join sep (p # q # ps) = p @ sep @ join sep (q # ps)"

section \<open>The text normalizer\<close>

text \<open>
  The dictionary \<open>replacements\<close> of \<open>clean_text\<close>, in its insertion order, which is the
  order in which the loop applies it.
\<close>

definition replacements :: "(ustring \<times> ustring) list" where
  "replacements =
     [([0x2013], [0x2D]), ([0x2014], [0x2D]), ([0x2019], [0x27]), ([0x2018], [0x27]),
      ([0x201C], [0x22]), ([0x201D], [0x22]), ([0x2026], [0x2E, 0x2E, 0x2E])]"

text \<open>The loop of \<open>clean_text\<close> over the dictionary.\<close>

definition apply_replacements :: "ustring \<Rightarrow> ustring" where
  "apply_replacements text = foldl (\<lambda>t (u, a). str_replace u a t) text replacements"

text \<open>
  \<open>clean_text\<close> on a \<open>str\<close>: the empty string is falsy and is returned as it is.
\<close>

definition clean_str :: "ustring \<Rightarrow> ustring" where
  "clean_str text = (if text = [] then text else apply_replacements text)"

text \<open>\<open>clean_text\<close> on any argument; \<open>None\<close> is Python's \<open>None\<close>.\<close>

definition clean_text :: "ustring option \<Rightarrow> ustring option" where
  "clean_text text = (case text of None \<Rightarrow> None | Some s \<Rightarrow> Some (clean_str s))"

text \<open>
  The seven characters the normalizer targets: en dash, em dash, the two single and the two
  double curly quotes, and the horizontal ellipsis.
\<close>

definition target_chars :: "nat set" where
  "target_chars = {0x2013, 0x2014, 0x2018, 0x2019, 0x201C, 0x201D, 0x2026}"

section \<open>The parsed tree\<close>

text \<open>
  The tree BeautifulSoup builds: an element (\<open>Tag\<close>) has a name, the list of its
  classes (empty when it has no \<open>class\<close> attribute) and its contents in document order;
  a \<open>Text\<close> is a string of the page that \<open>get_text\<close> of the elements around it returns.
  The other strings are left out of the tree: comments and declarations, and the strings
  inside \<open>script\<close>, \<open>style\<close> and \<open>template\<close> elements, which \<open>get_text\<close> of an
  enclosing element skips. No operation of the extractors sees them: the searches find
  elements only, and \<open>get_text\<close> is only ever called on \<open>h5\<close>, \<open>span\<close>, \<open>div\<close> and \<open>p\<close>
  elements.

  \<open>Decomposed\<close> stands where \<open>decompose()\<close> removed an element: the place is no longer
  part of the tree (no search reaches it, it contributes no text), and a reference that
  led into the removed element now sees an element without contents. The place itself
  is kept so that the positions of the other nodes, by which the model refers to
  elements, stay what they were. \<open>live\<close> gives the tree without these places.
\<close>

datatype node =
    Tag (tag_name: ustring) (tag_classes: "ustring list") (tag_contents: "node list")
  | Text ustring
  | Decomposed

type_synonym path = "nat list"


text \<open>A reference to an element is the path to it: the positions to follow from a node.\<close>

fun node_at :: "node \<Rightarrow> path \<Rightarrow> node option" where
  "node_at n [] = Some n"
| "node_at (Tag nm cl ch) (i # p) = (if i < length ch then node_at (ch ! i) p else None)"
| "node_at (Text s) (i # p) = None"
| "node_at Decomposed (i # p) = None"

fun update_at :: "node \<Rightarrow> path \<Rightarrow> node \<Rightarrow> node" where
  "update_at n [] n' = n'"
| "update_at (Tag nm cl ch) (i # p) n' =
     (if i < length ch then Tag nm cl (ch[i := update_at (ch ! i) p n']) else Tag nm cl ch)"
| "update_at (Text s) (i # p) n' = Text s"
| "update_at Decomposed (i # p) n' = Decomposed"

text \<open>
  \<open>tag.descendants\<close>: every node below \<open>tag\<close> in document order, each with its path from
  \<open>tag\<close>; \<open>tag.children\<close>: the direct ones.
\<close>

fun descendants :: "node \<Rightarrow> (path \<times> node) list"
  and descendants_from :: "nat \<Rightarrow> node list \<Rightarrow> (path \<times> node) list" where
  "descendants (Tag nm cl ch) = descendants_from 0 ch"
| "descendants (Text s) = []"
| "descendants Decomposed = []"
| "descendants_from i [] = []"
| "descendants_from i (c # cs) =
     (if c = Decomposed then [] else ([i], c) # map (\<lambda>(p, n). (i # p, n)) (descendants c))
     @ descendants_from (Suc i) cs"

fun children_from :: "nat \<Rightarrow> node list \<Rightarrow> (path \<times> node) list" where
  "children_from i [] = []"
| "children_from i (c # cs) =
     (if c = Decomposed then [] else [([i], c)]) @ children_from (Suc i) cs"

fun children :: "node \<Rightarrow> (path \<times> node) list" where
  "children (Tag nm cl ch) = children_from 0 ch"
| "children (Text s) = []"
| "children Decomposed = []"

text \<open>
  The test of \<open>find\<close> and \<open>find_all\<close>: an element whose name is one of \<open>names\<close> and, when
  \<open>class_\<close> is given (\<open>cls\<close> not empty), one of whose classes is one of \<open>cls\<close>.
\<close>

fun matches :: "ustring list \<Rightarrow> ustring list \<Rightarrow> node \<Rightarrow> bool" where
  "matches names cls (Tag nm cl ch) =
     (nm \<in> set names \<and> (cls = [] \<or> list_ex (\<lambda>c. c \<in> set cls) cl))"
| "matches names cls (Text s) = False"
| "matches names cls Decomposed = False"

definition bs_find_all :: "ustring list \<Rightarrow> ustring list \<Rightarrow> node \<Rightarrow> (path \<times> node) list" where
  "bs_find_all names cls n = filter (\<lambda>(p, m). matches names cls m) (descendants n)"

text \<open>\<open>find_all(..., recursive=False)\<close>\<close>

definition bs_find_all_children ::
  "ustring list \<Rightarrow> ustring list \<Rightarrow> node \<Rightarrow> (path \<times> node) list" where
  "bs_find_all_children names cls n = filter (\<lambda>(p, m). matches names cls m) (children n)"

text \<open>\<open>find\<close> is the first result of \<open>find_all\<close>, or \<open>None\<close>.\<close>

definition bs_find :: "ustring list \<Rightarrow> ustring list \<Rightarrow> node \<Rightarrow> (path \<times> node) option" where
  "bs_find names cls n = (case bs_find_all names cls n of [] \<Rightarrow> None | r # rs \<Rightarrow> Some r)"

text \<open>
  \<open>get_text(strip=True)\<close>: the strings below the element that count as its text (the
  \<open>Text\<close> nodes, see above), each stripped, the empty ones dropped, joined without a
  separator.
\<close>

fun stripped_strings :: "node \<Rightarrow> ustring list" where
  "stripped_strings (Tag nm cl ch) = concat (map stripped_strings ch)"
| "stripped_strings (Text s) = (if strip s = [] then [] else [strip s])"
| "stripped_strings Decomposed = []"

definition get_text :: "node \<Rightarrow> ustring" where
  "get_text n = concat (stripped_strings n)"

text \<open>\<open>element.decompose()\<close> for the element at \<open>p\<close>, and the loop that decomposes a result list.\<close>

definition decompose :: "node \<Rightarrow> path \<Rightarrow> node" where
  "decompose n p = update_at n p Decomposed"

definition decompose_all :: "node \<Rightarrow> path list \<Rightarrow> node" where
  "decompose_all n ps = foldl decompose n ps"

section \<open>Errors and records\<close>

text \<open>
  The exceptions that an operation of the code can raise outside a \<open>try\<close>: \<open>xs[i]\<close>
  (here for \<open>i \<ge> 0\<close>) and \<open>urlparse\<close>.
\<close>

datatype py_error = IndexError | ValueError

definition py_index :: "'a list \<Rightarrow> nat \<Rightarrow> py_error + 'a" where
  "py_index xs i = (if i < length xs then Inr (xs ! i) else Inl IndexError)"

text \<open>The dictionary \<open>day_info\<close>; the key \<open>image\<close> is the field \<open>image'\<close>.\<close>

record day_info =
  icon :: ustring
  day :: ustring
  title :: ustring
  image' :: ustring
  body :: ustring

section \<open>The patterns\<close>

text \<open>
  \<open>Day\s+(\d+)\<close> matched at the first position of \<open>s\<close>, giving group 1. \<open>\s+\<close> and \<open>\d+\<close>
  are greedy, and no character is both a whitespace and a digit, so the match exists
  exactly when the longest run of whitespace after \<open>Day\<close> is not empty and a digit follows
  it.
\<close>

definition match_day_number :: "(nat \<Rightarrow> bool) \<Rightarrow> ustring \<Rightarrow> ustring option" where
  "match_day_number nd s =
     (if prefix (ascii ''Day'') s then
        (let r = drop 3 s; ds = takeWhile (isdecimal nd) (dropWhile isspace r)
         in if takeWhile isspace r \<noteq> [] \<and> ds \<noteq> [] then Some ds else None)
      else None)"

text \<open>\<open>re.search(r'Day\s+(\d+)', s)\<close>: the match at the leftmost position that has one.\<close>

fun search_day_number :: "(nat \<Rightarrow> bool) \<Rightarrow> ustring \<Rightarrow> ustring option" where
  "search_day_number nd [] = None"
| "search_day_number nd (c # cs) =
     (case match_day_number nd (c # cs) of
        Some ds \<Rightarrow> Some ds
      | None \<Rightarrow> search_day_number nd cs)"

text \<open>
  \<open>Day (\d+):\<close> matched at the first position of \<open>s\<close>, giving group 1 and the text after
  the match.
\<close>

definition match_day_colon :: "(nat \<Rightarrow> bool) \<Rightarrow> ustring \<Rightarrow> (ustring \<times> ustring) option" where
  "match_day_colon nd s =
     (if prefix (ascii ''Day '') s then
        (let r = drop 4 s; ds = takeWhile (isdecimal nd) r; rest = dropWhile (isdecimal nd) r
         in if ds \<noteq> [] \<and> prefix (ascii '':'') rest then Some (ds, drop 1 rest) else None)
      else None)"

text \<open>\<open>re.search(r'Day (\d+):', s)\<close>, giving group 1.\<close>

fun search_day_colon :: "(nat \<Rightarrow> bool) \<Rightarrow> ustring \<Rightarrow> ustring option" where
  "search_day_colon nd [] = None"
| "search_day_colon nd (c # cs) =
     (case match_day_colon nd (c # cs) of
        Some (ds, rest) \<Rightarrow> Some ds
      | None \<Rightarrow> search_day_colon nd cs)"

text \<open>
  \<open>re.sub(r'^Day \d+:\s*', '', s)\<close>: \<open>^\<close> matches at the first position only, so at most
  one match is replaced.
\<close>

definition sub_day_prefix :: "(nat \<Rightarrow> bool) \<Rightarrow> ustring \<Rightarrow> ustring" where
  "sub_day_prefix nd s =
     (case match_day_colon nd s of
        Some (ds, rest) \<Rightarrow> dropWhile isspace rest
      | None \<Rightarrow> s)"

section \<open>The page classifier\<close>

text \<open>\<open>determine_scraper_type\<close>; the result \<open>None\<close> is Python's \<open>None\<close>.\<close>

definition determine_scraper_type :: "ustring \<Rightarrow> ustring option" where
  "determine_scraper_type url =
     (if contains (ascii ''cruises.flightcentre'') url then Some (ascii ''cruise'')
      else if contains (ascii ''tours.flightcentre'') url then Some (ascii ''tour'')
      else None)"

section \<open>The cruise extractor\<close>

definition sea_day_text :: ustring where
  "sea_day_text =
     ascii ''Day at sea - enjoy the ship'' @ [0x27] @
     ascii ''s amenities and relax as you cruise to your next destination.''"

definition explore_text :: "ustring \<Rightarrow> ustring" where
  "explore_text t = ascii ''Explore '' @ t @ ascii '' and enjoy the local attractions and culture.''"

text \<open>
  The day of an item, from its first child \<open>div\<close>: \<open>None\<close> is the \<open>continue\<close> of the loop
  (a heading that does not match the pattern); without a heading the day stays empty.
\<close>

definition cruise_day :: "(nat \<Rightarrow> bool) \<Rightarrow> node \<Rightarrow> ustring option" where
  "cruise_day nd first_div =
     (case bs_find [ascii ''h5''] [] first_div of
        None \<Rightarrow> Some []
      | Some (p, day_h5) \<Rightarrow>
          (case search_day_number nd (get_text day_h5) of
             Some ds \<Rightarrow> Some ds
           | None \<Rightarrow> None))"

definition cruise_title :: "node \<Rightarrow> ustring" where
  "cruise_title second_div =
     (case bs_find [ascii ''h5''] [] second_div of
        None \<Rightarrow> []
      | Some (p, location_h5) \<Rightarrow> clean_str (get_text location_h5))"

text \<open>
  \<open>description_text\<close> for a \<open>content_wrap\<close>, and the \<open>content_wrap\<close> afterwards: the third
  try decomposes the \<open>more\<close> and \<open>less\<close> spans of the \<open>descr\<close> element before it reads its
  text.
\<close>

definition resolve_description :: "node \<Rightarrow> ustring \<times> node" where
  "resolve_description content_wrap =
     (let d1 =
        (case bs_find [ascii ''span''] [ascii ''text-info''] content_wrap of
           None \<Rightarrow> []
         | Some (p, text_info) \<Rightarrow>
             (case bs_find [ascii ''span''] [ascii ''text-info-summary''] text_info of
                None \<Rightarrow> []
              | Some (q, text_summary) \<Rightarrow> get_text text_summary));
          d2 =
        (if d1 = [] then
           (case bs_find [ascii ''span''] [ascii ''text-info-summary''] content_wrap of
              None \<Rightarrow> d1
            | Some (q, text_summary) \<Rightarrow> get_text text_summary)
         else d1)
      in if d2 = [] then
           (case bs_find [ascii ''div''] [ascii ''descr''] content_wrap of
              None \<Rightarrow> (d2, content_wrap)
            | Some (p, descr_div) \<Rightarrow>
                (let descr_div' =
                       decompose_all descr_div
                         (map fst (bs_find_all [ascii ''span''] [ascii ''more'', ascii ''less''] descr_div))
                 in (get_text descr_div', update_at content_wrap p descr_div')))
         else (d2, content_wrap))"

text \<open>The body of an item from its second child \<open>div\<close>, and that \<open>div\<close> afterwards.\<close>

definition resolve_body :: "node \<Rightarrow> ustring \<times> node" where
  "resolve_body second_div =
     (case bs_find [ascii ''div''] [ascii ''content-wrap''] second_div of
        None \<Rightarrow> ([], second_div)
      | Some (p, content_wrap) \<Rightarrow>
          (case resolve_description content_wrap of
             (description_text, content_wrap') \<Rightarrow>
               (if description_text \<noteq> [] then clean_str description_text else [],
                update_at second_div p content_wrap')))"

text \<open>The inclusion rule at the end of the loop body, with the generic body.\<close>

definition cruise_include :: "day_info \<Rightarrow> day_info option" where
  "cruise_include d =
     (if day d \<noteq> [] \<and> title d \<noteq> [] then
        Some (if body d = [] then d\<lparr>body := explore_text (title d)\<rparr> else d)
      else None)"

text \<open>
  One round of the loop over \<open>day_items\<close>: the record appended, if any, and the item
  afterwards.
\<close>

definition cruise_item :: "(nat \<Rightarrow> bool) \<Rightarrow> node \<Rightarrow> py_error + (day_info option \<times> node)" where
  "cruise_item nd item =
     (let divs = bs_find_all_children [ascii ''div''] [] item in
      if 2 \<le> length divs then
        (case py_index divs 0 of
           Inl e \<Rightarrow> Inl e
         | Inr (p1, first_div) \<Rightarrow>
             (case cruise_day nd first_div of
                None \<Rightarrow> Inr (None, item)
              | Some d \<Rightarrow>
                  (case py_index divs 1 of
                     Inl e \<Rightarrow> Inl e
                   | Inr (p2, second_div) \<Rightarrow>
                       (case resolve_body second_div of
                          (b, second_div') \<Rightarrow>
                            (let t = cruise_title second_div;
                                 b' = (if b = [] \<and> t = ascii ''At Sea'' then sea_day_text else b)
                             in Inr (cruise_include
                                       \<lparr>icon = [], day = d, title = t, image' = [], body = b'\<rparr>,
                                     update_at item p2 second_div'))))))
      else Inr (cruise_include \<lparr>icon = [], day = [], title = [], image' = [], body = []\<rparr>, item))"

text \<open>
  The loop over \<open>day_items\<close>, the references found before the loop started. It carries the
  tree, since a round may change it; an item that an earlier round decomposed has no
  contents any more.
\<close>

fun cruise_loop ::
  "(nat \<Rightarrow> bool) \<Rightarrow> node \<Rightarrow> path list \<Rightarrow> py_error + (day_info list \<times> node)" where
  "cruise_loop nd soup [] = Inr ([], soup)"
| "cruise_loop nd soup (p # ps) =
     (case cruise_item nd (case node_at soup p of Some item \<Rightarrow> item | None \<Rightarrow> Decomposed) of
        Inl e \<Rightarrow> Inl e
      | Inr (r, item') \<Rightarrow>
          (case cruise_loop nd (update_at soup p item') ps of
             Inl e \<Rightarrow> Inl e
           | Inr (rs, soup') \<Rightarrow> Inr ((case r of None \<Rightarrow> [] | Some d \<Rightarrow> [d]) @ rs, soup')))"

text \<open>\<open>parse_cruise_itinerary_days\<close>: the records, and the tree as the call leaves it.\<close>

definition parse_cruise_itinerary_days ::
  "(nat \<Rightarrow> bool) \<Rightarrow> node \<Rightarrow> py_error + (day_info list \<times> node)" where
  "parse_cruise_itinerary_days nd soup =
     (case (case bs_find [ascii ''div''] [ascii ''grid-item-block-dates-accordion''] soup of
              Some c \<Rightarrow> Some c
            | None \<Rightarrow> bs_find [ascii ''div''] [ascii ''accordion-block''] soup) of
        None \<Rightarrow> Inr ([], soup)
      | Some (pc, itinerary_container) \<Rightarrow>
          cruise_loop nd soup
            (map (\<lambda>(p, item). pc @ p)
               (bs_find_all [ascii ''div''] [ascii ''date-list''] itinerary_container)))"

section \<open>The tour extractor\<close>

definition parse_tour_itinerary_description :: "node \<Rightarrow> ustring list" where
  "parse_tour_itinerary_description soup =
     (case bs_find [ascii ''div''] [ascii ''ao-clp-custom-tdp-itinerary__description''] soup of
        Some (p, description_elem) \<Rightarrow>
          (let text = clean_str (get_text description_elem);
               sentences = map strip (filter (\<lambda>s. strip s \<noteq> []) (split_char 0x2E text))
           in [join (ascii ''. '') sentences])
      | None \<Rightarrow> [[]])"

text \<open>The title text of an accordion item, \<open>None\<close> without a title element.\<close>

definition tour_title_text :: "node \<Rightarrow> ustring option" where
  "tour_title_text item =
     (case bs_find [ascii ''div''] [ascii ''js-ao-common-accordion__title''] item of
        None \<Rightarrow> None
      | Some (p, title_elem) \<Rightarrow>
          (let title_text = get_text title_elem;
               title_text' =
                 (case bs_find [ascii ''div''] [ascii ''ao-common-accordion__arrow''] title_elem of
                    None \<Rightarrow> title_text
                  | Some (q, arrow_elem) \<Rightarrow> strip (str_replace (get_text arrow_elem) [] title_text))
           in Some (clean_str title_text')))"

definition tour_body :: "node \<Rightarrow> ustring" where
  "tour_body item =
     (case bs_find [ascii ''div''] [ascii ''ao-common-accordion__bottom-content''] item of
        None \<Rightarrow> []
      | Some (p, content_elem) \<Rightarrow>
          (let paragraphs = bs_find_all [ascii ''p''] [] content_elem;
               body_text =
                 (if paragraphs \<noteq> [] then join (ascii '' '') (map (\<lambda>(q, e). get_text e) paragraphs)
                  else get_text content_elem)
           in clean_str body_text))"

text \<open>One round of the loop over the accordion items: the record appended, if any.\<close>

definition tour_item :: "(nat \<Rightarrow> bool) \<Rightarrow> node \<Rightarrow> day_info option" where
  "tour_item nd item =
     (case tour_title_text item of
        None \<Rightarrow> None
      | Some title_text \<Rightarrow>
          (case search_day_colon nd title_text of
             None \<Rightarrow> None
           | Some ds \<Rightarrow>
               (let d = \<lparr>icon = [], day = ds, title = sub_day_prefix nd title_text, image' = [],
                         body = tour_body item\<rparr>
                in if title d \<noteq> [] \<and> body d \<noteq> [] then Some d else None)))"

definition parse_tour_itinerary_days :: "(nat \<Rightarrow> bool) \<Rightarrow> node \<Rightarrow> day_info list" where
  "parse_tour_itinerary_days nd soup =
     (case bs_find [ascii ''section''] [ascii ''ao-clp-custom-tdp-itinerary''] soup of
        None \<Rightarrow> []
      | Some (p, itinerary_section) \<Rightarrow>
          List.map_filter (\<lambda>(q, item). tour_item nd item)
            (bs_find_all [ascii ''li''] [ascii ''js-ao-common-accordion''] itinerary_section))"

section \<open>The tour extractor with the tree as a state\<close>




definition st_find :: "ustring list \<Rightarrow> ustring list \<Rightarrow> path \<Rightarrow> node \<Rightarrow> path option \<times> node" where
  "st_find names cls r soup =
     ((case node_at soup r of
         None \<Rightarrow> None
       | Some n \<Rightarrow> map_option (\<lambda>(p, m). r @ p) (bs_find names cls n)), soup)"


definition st_get_text :: "path \<Rightarrow> node \<Rightarrow> ustring \<times> node" where
  "st_get_text r soup = ((case node_at soup r of None \<Rightarrow> [] | Some n \<Rightarrow> get_text n), soup)"






section \<open>The orchestrator\<close>

text \<open>
  What \<open>scrape_content\<close> takes from outside: the answer of the session to a GET (an
  exception of \<open>requests\<close>, or a status and a body); \<open>scheme://netloc\<close> of a URL as
  \<open>urlparse\<close> gives it, \<open>None\<close> when \<open>urlparse\<close> raises \<open>ValueError\<close> (as it does for
  \<open>http://[cruises.flightcentre\<close>); the URL that \<open>urljoin\<close> builds from that and
  \<open>/robots.txt\<close>, \<open>None\<close> when it raises; and the parser. The state is the list of the URLs
  requested so far. The delays are not part of the model.
\<close>

datatype http_result = NetError | Response nat ustring

record collaborators =
  http_get :: "ustring \<Rightarrow> http_result"
  url_base :: "ustring \<Rightarrow> ustring option"
  robots_url :: "ustring \<Rightarrow> ustring option"
  parse_html :: "ustring \<Rightarrow> node"

datatype scrape_error = UnrecognizedUrl | FetchFailed | Raised py_error

record itinerary_result =
  summary :: "ustring list"
  itinerary :: "day_info list"

text \<open>
  \<open>check_robots_txt\<close>: one request, unless building its URL raised; every exception is
  caught and the result is always \<open>True\<close>, so only the requests are kept.
\<close>

definition check_robots_txt :: "collaborators \<Rightarrow> ustring \<Rightarrow> ustring list \<Rightarrow> ustring list" where
  "check_robots_txt env base_url requested =
     (case robots_url env base_url of
        None \<Rightarrow> requested
      | Some robots \<Rightarrow> requested @ [robots])"

text \<open>\<open>fetch_page\<close>: one request; \<open>raise_for_status\<close> raises for the statuses 400 to 599.\<close>

definition fetch_page ::
  "collaborators \<Rightarrow> ustring \<Rightarrow> ustring list \<Rightarrow> (scrape_error + ustring) \<times> ustring list" where
  "fetch_page env url requested =
     (case http_get env url of
        NetError \<Rightarrow> (Inl FetchFailed, requested @ [url])
      | Response status text \<Rightarrow>
          (if 400 \<le> status \<and> status < 600 then Inl FetchFailed else Inr text, requested @ [url]))"

definition scrape_content ::
  "(nat \<Rightarrow> bool) \<Rightarrow> collaborators \<Rightarrow> ustring \<Rightarrow> ustring list
     \<Rightarrow> (scrape_error + itinerary_result) \<times> ustring list" where
  "scrape_content nd env url requested =
     (case determine_scraper_type url of
        None \<Rightarrow> (Inl UnrecognizedUrl, requested)
      | Some scraper_type \<Rightarrow>
          (case url_base env url of
             None \<Rightarrow> (Inl (Raised ValueError), requested)
           | Some base_url \<Rightarrow>
               (case fetch_page env url (check_robots_txt env base_url requested) of
                  (Inl e, requested') \<Rightarrow> (Inl e, requested')
                | (Inr html_content, requested') \<Rightarrow>
                    (let soup = parse_html env html_content in
                     if scraper_type = ascii ''cruise'' then
                       (case parse_cruise_itinerary_days nd soup of
                          Inl e \<Rightarrow> (Inl (Raised e), requested')
                        | Inr (days, soup') \<Rightarrow>
                            (Inr \<lparr>summary = [[]], itinerary = days\<rparr>, requested'))
                     else
                       (Inr \<lparr>summary = parse_tour_itinerary_description soup,
                             itinerary = parse_tour_itinerary_days nd soup\<rparr>, requested')))))"

section \<open>Notions of the specification\<close>

text \<open>
  The normalization of one character: the seven typographic characters with their ASCII
  replacements, every other character as it is.
\<close>

definition normalize_char :: "nat \<Rightarrow> ustring" where
  "normalize_char c =
     (if c = 0x2013 \<or> c = 0x2014 then [0x2D]
      else if c = 0x2018 \<or> c = 0x2019 then [0x27]
      else if c = 0x201C \<or> c = 0x201D then [0x22]
      else if c = 0x2026 then [0x2E, 0x2E, 0x2E]
      else [c])"


text \<open>
  The strings of an element that lie outside its sub-elements matching \<open>names\<close> and \<open>cls\<close>,
  each stripped, the empty ones dropped: the text of the element once those sub-elements
  are removed.
\<close>

fun strings_outside :: "ustring list \<Rightarrow> ustring list \<Rightarrow> node \<Rightarrow> ustring list" where
  "strings_outside names cls (Tag nm cl ch) =
     concat (map (\<lambda>c. if matches names cls c then [] else strings_outside names cls c) ch)"
| "strings_outside names cls (Text s) = (if strip s = [] then [] else [strip s])"
| "strings_outside names cls Decomposed = []"

text \<open>The loop that decomposes every result of a search below \<open>n\<close>.\<close>

definition decompose_matching :: "ustring list \<Rightarrow> ustring list \<Rightarrow> node \<Rightarrow> node" where
  "decompose_matching names cls n = decompose_all n (map fst (bs_find_all names cls n))"

text \<open>
  The first node below \<open>n\<close>, in document order and at any depth, that satisfies \<open>P\<close>; the
  first one among the direct children of \<open>n\<close>; and the first one in a list of results.
\<close>

fun first_below :: "(node \<Rightarrow> bool) \<Rightarrow> node \<Rightarrow> node option"
  and first_among :: "(node \<Rightarrow> bool) \<Rightarrow> node list \<Rightarrow> node option" where
  "first_below P (Tag nm cl ch) = first_among P ch"
| "first_below P (Text s) = None"
| "first_below P Decomposed = None"
| "first_among P [] = None"
| "first_among P (c # cs) =
     (if c = Decomposed then first_among P cs
      else if P c then Some c
      else (case first_below P c of Some m \<Rightarrow> Some m | None \<Rightarrow> first_among P cs))"

fun first_child :: "(node \<Rightarrow> bool) \<Rightarrow> node \<Rightarrow> node option" where
  "first_child P (Tag nm cl ch) = List.find (\<lambda>c. c \<noteq> Decomposed \<and> P c) ch"
| "first_child P (Text s) = None"
| "first_child P Decomposed = None"

definition first_hit :: "(node \<Rightarrow> bool) \<Rightarrow> (path \<times> node) list \<Rightarrow> node option" where
  "first_hit P xs = (case filter (\<lambda>(p, m). P m) xs of [] \<Rightarrow> None | r # rs \<Rightarrow> Some (snd r))"

text \<open>
  The three tiers of the body fallback as functions of the content wrapper, an empty
  text meaning that the tier did not succeed, and the choice of the first text that is
  not empty. Tier (a) is the first \<open>text-info-summary\<close> span inside the first \<open>text-info\<close>
  span. Tier (b) comes in two readings: \<open>tier_b_top_level\<close> takes the first
  \<open>text-info-summary\<close> span among the direct children of the content wrapper, which is the
  wording of the claim; \<open>tier_b_any_depth\<close> takes the first one in document order at any
  depth, be it inside a \<open>text-info\<close> span. Tier (c) is the text of the first \<open>descr\<close> element
  outside its \<open>more\<close> and \<open>less\<close> spans.
\<close>

fun first_nonempty :: "ustring list \<Rightarrow> ustring" where
  "first_nonempty [] = []"
| "first_nonempty (t # ts) = (if t \<noteq> [] then t else first_nonempty ts)"

definition tier_a :: "node \<Rightarrow> ustring" where
  "tier_a content_wrap =
     (case first_below (matches [ascii ''span''] [ascii ''text-info'']) content_wrap of
        None \<Rightarrow> []
      | Some text_info \<Rightarrow>
          (case first_below (matches [ascii ''span''] [ascii ''text-info-summary'']) text_info of
             None \<Rightarrow> []
           | Some text_summary \<Rightarrow> get_text text_summary))"

definition tier_b_top_level :: "node \<Rightarrow> ustring" where
  "tier_b_top_level content_wrap =
     (case first_child (matches [ascii ''span''] [ascii ''text-info-summary'']) content_wrap of
        None \<Rightarrow> []
      | Some text_summary \<Rightarrow> get_text text_summary)"

definition tier_b_any_depth :: "node \<Rightarrow> ustring" where
  "tier_b_any_depth content_wrap =
     (case first_below (matches [ascii ''span''] [ascii ''text-info-summary'']) content_wrap of
        None \<Rightarrow> []
      | Some text_summary \<Rightarrow> get_text text_summary)"

definition tier_c :: "node \<Rightarrow> ustring" where
  "tier_c content_wrap =
     (case first_below (matches [ascii ''div''] [ascii ''descr'']) content_wrap of
        None \<Rightarrow> []
      | Some descr_div \<Rightarrow>
          concat (strings_outside [ascii ''span''] [ascii ''more'', ascii ''less''] descr_div))"










section \<open>Example pages\<close>

text \<open>
  \<open>elem\<close> writes an element with ASCII names. \<open>no_other_digits\<close> is the table of decimal
  digits beyond ASCII of an interpreter that knows none.
\<close>

definition elem :: "string \<Rightarrow> string list \<Rightarrow> node list \<Rightarrow> node" where
  "elem nm cl ch = Tag (ascii nm) (map ascii cl) ch"

definition no_other_digits :: "nat \<Rightarrow> bool" where
  "no_other_digits c = False"

text \<open>A cruise page with one day whose description is in the oldest markup (tier a).\<close>

definition nassau_wrap :: node where
  "nassau_wrap =
     elem ''div'' [''content-wrap'']
       [elem ''span'' [''text-info'']
          [elem ''span'' [''text-info-summary''] [Text (ascii ''Explore the beaches.'')]]]"

definition nassau_page :: node where
  "nassau_page =
     elem ''[document]'' []
       [elem ''div'' [''grid-item-block-dates-accordion'']
          [elem ''div'' [''date-list'']
             [elem ''div'' [] [elem ''h5'' [] [Text (ascii ''Day 3'')]],
              elem ''div'' [] [elem ''h5'' [] [Text (ascii ''Nassau'')], nassau_wrap]]]]"

definition nassau_day :: day_info where
  "nassau_day =
     \<lparr>icon = [], day = ascii ''3'', title = ascii ''Nassau'', image' = [],
      body = ascii ''Explore the beaches.''\<rparr>"

text \<open>Content wrappers in the newer markups (tier b and tier c).\<close>

definition summary_wrap :: node where
  "summary_wrap =
     elem ''div'' [''content-wrap'']
       [elem ''span'' [''text-info''] [],
        elem ''span'' [''text-info-summary''] [Text (ascii ''Old town.'')]]"

definition descr_wrap :: node where
  "descr_wrap =
     elem ''div'' [''content-wrap'']
       [elem ''div'' [''descr'']
          [Text (ascii ''Sunny port. ''), elem ''span'' [''more''] [Text (ascii ''More'')]]]"

text \<open>
  A content wrapper whose first \<open>text-info-summary\<close> span, inside the \<open>text-info\<close> span,
  holds only a blank, followed by a \<open>text-info-summary\<close> span and a \<open>descr\<close> element with
  text.
\<close>

definition blank_wrap :: node where
  "blank_wrap =
     elem ''div'' [''content-wrap'']
       [elem ''span'' [''text-info''] [elem ''span'' [''text-info-summary''] [Text (ascii '' '')]],
        elem ''span'' [''text-info-summary''] [Text (ascii ''B'')],
        elem ''div'' [''descr''] [Text (ascii ''C'')]]"






text \<open>Cruise items: a sea day without a description, and an item with one child only.\<close>

definition sea_item :: node where
  "sea_item =
     elem ''div'' [''date-list'']
       [elem ''div'' [] [elem ''h5'' [] [Text (ascii ''Day 4'')]],
        elem ''div'' [] [elem ''h5'' [] [Text (ascii ''At Sea'')]]]"

definition sea_day :: day_info where
  "sea_day =
     \<lparr>icon = [], day = ascii ''4'', title = ascii ''At Sea'', image' = [], body = sea_day_text\<rparr>"

definition stub_item :: node where
  "stub_item = elem ''div'' [''date-list''] [elem ''div'' [] [elem ''h5'' [] [Text (ascii ''Day 9'')]]]"

text \<open>
  A cruise page with a stub, a day whose heading has no day number, a sea day and a day
  without a description.
\<close>

definition mixed_page :: node where
  "mixed_page =
     elem ''[document]'' []
       [elem ''div'' [''accordion-block'']
          [stub_item,
           elem ''div'' [''date-list'']
             [elem ''div'' [] [elem ''h5'' [] [Text (ascii ''Embark'')]],
              elem ''div'' [] [elem ''h5'' [] [Text (ascii ''Miami'')]]],
           sea_item,
           elem ''div'' [''date-list'']
             [elem ''div'' [] [elem ''h5'' [] [Text (ascii ''Day 5'')]],
              elem ''div'' [] [elem ''h5'' [] [Text (ascii ''Cozumel'')]]]]]"

definition cozumel_item :: node where
  "cozumel_item =
     elem ''div'' [''date-list'']
       [elem ''div'' [] [elem ''h5'' [] [Text (ascii ''Day 5'')]],
        elem ''div'' [] [elem ''h5'' [] [Text (ascii ''Cozumel'')]]]"

definition cozumel_day :: day_info where
  "cozumel_day =
     \<lparr>icon = [], day = ascii ''5'', title = ascii ''Cozumel'', image' = [],
      body = ascii ''Explore Cozumel and enjoy the local attractions and culture.''\<rparr>"

text \<open>A page without any itinerary markup.\<close>

definition empty_page :: node where
  "empty_page = elem ''[document]'' [] [elem ''p'' [] [Text (ascii ''Sold out'')]]"

text \<open>
  Tour accordion items: one whose title has the day in the middle, one with an arrow and
  two paragraphs, one without content; and a tour page.
\<close>

definition arrival_item :: node where
  "arrival_item =
     elem ''li'' [''js-ao-common-accordion'']
       [elem ''div'' [''js-ao-common-accordion__title''] [Text (ascii ''Arrival Day 1: Hanoi'')],
        elem ''div'' [''ao-common-accordion__bottom-content'']
          [elem ''p'' [] [Text (ascii ''Welcome.'')]]]"

definition arrival_day :: day_info where
  "arrival_day =
     \<lparr>icon = [], day = ascii ''1'', title = ascii ''Arrival Day 1: Hanoi'', image' = [],
      body = ascii ''Welcome.''\<rparr>"

definition hoi_an_item :: node where
  "hoi_an_item =
     elem ''li'' [''js-ao-common-accordion'']
       [elem ''div'' [''js-ao-common-accordion__title'']
          [Text (ascii '' Day 2: Hoi An ''),
           elem ''div'' [''ao-common-accordion__arrow''] [Text (ascii ''v'')]],
        elem ''div'' [''ao-common-accordion__bottom-content'']
          [elem ''p'' [] [Text (ascii ''Visit the old town.'')],
           elem ''p'' [] [Text (ascii ''Try local food.'')]]]"

definition hoi_an_day :: day_info where
  "hoi_an_day =
     \<lparr>icon = [], day = ascii ''2'', title = ascii ''Hoi An'', image' = [],
      body = ascii ''Visit the old town. Try local food.''\<rparr>"

definition silent_item :: node where
  "silent_item =
     elem ''li'' [''js-ao-common-accordion'']
       [elem ''div'' [''js-ao-common-accordion__title''] [Text (ascii ''Day 3: Hue'')]]"

definition summary_elem :: node where
  "summary_elem =
     elem ''div'' [''ao-clp-custom-tdp-itinerary__description'']
       [Text (ascii '' Ten days.  Hanoi to Saigon. '')]"

definition tour_page :: node where
  "tour_page =
     elem ''[document]'' []
       [summary_elem,
        elem ''section'' [''ao-clp-custom-tdp-itinerary'']
          [hoi_an_item, elem ''li'' [''js-ao-common-accordion''] [Text (ascii ''Inclusions'')],
           silent_item]]"

text \<open>A tour page whose description has an en dash, a curly apostrophe and an ellipsis.\<close>

definition typographic_elem :: node where
  "typographic_elem =
     elem ''div'' [''ao-clp-custom-tdp-itinerary__description'']
       [Text (ascii '' Hanoi '' @ [0x2013] @ ascii '' Saigon.  Don'' @ [0x2019] @
              ascii ''t rush'' @ [0x2026] @ ascii '' '')]"

definition typographic_page :: node where
  "typographic_page = elem ''[document]'' [] [typographic_elem]"

text \<open>Collaborators for which every request fails.\<close>

definition offline :: collaborators where
  "offline =
     \<lparr>http_get = (\<lambda>url. NetError), url_base = (\<lambda>url. Some url),
      robots_url = (\<lambda>base. Some (base @ ascii ''/robots.txt'')),
      parse_html = (\<lambda>html. Decomposed)\<rparr>"

section \<open>Facts about the string operations\<close>

lemma contains_iff_sublist: "contains sub s \<longleftrightarrow> sublist sub s"
  by (induction s) (auto simp: sublist_Cons_right)

lemma replace_from_single:
  "replace_from [c] new s = concat (map (\<lambda>x. if x = c then new else [x]) s)"
  by (induction s) auto

lemma str_replace_single:
  "str_replace [c] new s = concat (map (\<lambda>x. if x = c then new else [x]) s)"
  by (simp add: str_replace_def replace_from_single)

lemma str_replace_absent: "c \<notin> set s \<Longrightarrow> str_replace [c] new s = s"
  by (induction s) (auto simp: str_replace_single)

lemma set_str_replace_single: "set (str_replace [c] new s) \<subseteq> (set s - {c}) \<union> set new"
  by (auto simp: str_replace_single split: if_splits)

lemma foldl_replace_absent:
  "\<forall>(u, a) \<in> set rs. \<exists>c. u = [c] \<and> c \<notin> set s \<Longrightarrow>
   foldl (\<lambda>t (u, a). str_replace u a t) s rs = s"
proof (induction rs)
  case Nil
  then show ?case by simp
next
  case (Cons r rs)
  obtain u a where r: "r = (u, a)" by (cases r)
  from Cons.prems r obtain c where c: "u = [c]" "c \<notin> set s" by auto
  have "str_replace u a s = s" using c by (simp add: str_replace_absent)
  moreover have "\<forall>(u, a) \<in> set rs. \<exists>c. u = [c] \<and> c \<notin> set s" using Cons.prems by simp
  ultimately show ?case using Cons.IH r by simp
qed

lemma set_foldl_replace:
  "\<forall>(u, a) \<in> set rs. \<exists>c. u = [c] \<Longrightarrow>
   set (foldl (\<lambda>t (u, a). str_replace u a t) s rs)
     \<subseteq> (set s - {c. [c] \<in> fst ` set rs}) \<union> (\<Union>(u, a) \<in> set rs. set a)"
proof (induction rs arbitrary: s)
  case Nil
  then show ?case by simp
next
  case (Cons r rs)
  obtain u a where r: "r = (u, a)" by (cases r)
  from Cons.prems r obtain c where c: "u = [c]" by auto
  have step: "set (str_replace u a s) \<subseteq> (set s - {c}) \<union> set a"
    unfolding c by (rule set_str_replace_single)
  have "\<forall>(u, a) \<in> set rs. \<exists>c. u = [c]" using Cons.prems by simp
  from Cons.IH [OF this, of "str_replace u a s"] step show ?case
    unfolding r c by (simp add: subset_iff) blast
qed

lemma apply_replacements_fixed:
  "set s \<inter> target_chars = {} \<Longrightarrow> apply_replacements s = s"
  unfolding apply_replacements_def
  by (rule foldl_replace_absent) (auto simp: replacements_def target_chars_def)

lemma apply_replacements_clean: "set (apply_replacements s) \<inter> target_chars = {}"
proof -
  have "\<forall>(u, a) \<in> set replacements. \<exists>c. u = [c]" by (simp add: replacements_def)
  from set_foldl_replace [OF this, of s]
  have "set (apply_replacements s)
          \<subseteq> (set s - {c. [c] \<in> fst ` set replacements}) \<union> (\<Union>(u, a) \<in> set replacements. set a)"
    by (simp add: apply_replacements_def)
  then show ?thesis
    by (auto simp: replacements_def target_chars_def subset_iff)
qed

lemma clean_str_fixed: "set s \<inter> target_chars = {} \<Longrightarrow> clean_str s = s"
  by (simp add: clean_str_def apply_replacements_fixed)

lemma clean_str_clean: "set (clean_str s) \<inter> target_chars = {}"
  by (simp add: clean_str_def apply_replacements_clean)

lemma clean_str_idem: "clean_str (clean_str s) = clean_str s"
  by (rule clean_str_fixed) (rule clean_str_clean)

lemma str_replace_single_append:
  "str_replace [c] new (a @ b) = str_replace [c] new a @ str_replace [c] new b"
  by (simp add: str_replace_single)

lemma apply_replacements_append:
  "apply_replacements (a @ b) = apply_replacements a @ apply_replacements b"
  by (simp add: apply_replacements_def replacements_def str_replace_single_append)

lemma apply_replacements_char: "apply_replacements [c] = normalize_char c"
  by (simp add: apply_replacements_def replacements_def str_replace_single normalize_char_def)

lemma apply_replacements_pointwise: "apply_replacements s = concat (map normalize_char s)"
proof (induction s)
  case Nil
  then show ?case by (simp add: apply_replacements_def replacements_def str_replace_single)
next
  case (Cons c s)
  have "apply_replacements (c # s) = apply_replacements ([c] @ s)" by simp
  also have "\<dots> = normalize_char c @ apply_replacements s"
    by (simp only: apply_replacements_append apply_replacements_char)
  finally show ?case using Cons.IH by simp
qed

lemma clean_str_pointwise: "clean_str s = concat (map normalize_char s)"
  by (simp add: clean_str_def apply_replacements_pointwise)


lemma filter_strip_sentences:
  "map strip (filter (\<lambda>s. strip s \<noteq> []) ps) = filter (\<lambda>s. s \<noteq> []) (map strip ps)"
  by (induction ps) auto

lemma split_char_nonempty: "split_char sep s \<noteq> []"
  by (induction s) (auto split: list.splits)

lemma join_split_char: "join [sep] (split_char sep s) = s"
proof (induction s)
  case Nil
  then show ?case by simp
next
  case (Cons c cs)
  then show ?case
    by (cases "split_char sep cs"; cases "tl (split_char sep cs)") (auto simp: split_char_nonempty)
qed

lemma split_char_no_sep: "p \<in> set (split_char sep s) \<Longrightarrow> sep \<notin> set p"
  by (induction s arbitrary: p) (auto split: list.splits if_splits)

lemma set_strip: "set (strip s) \<subseteq> set s"
proof -
  have "set (strip s) = set (dropWhile isspace (rev (dropWhile isspace s)))"
    by (simp add: strip_def)
  also have "\<dots> \<subseteq> set (rev (dropWhile isspace s))"
    by (auto dest: set_dropWhileD)
  also have "\<dots> \<subseteq> set s"
    by (auto dest: set_dropWhileD)
  finally show ?thesis .
qed

lemma join_eq_Nil: "ps \<noteq> [] \<Longrightarrow> last ps \<noteq> [] \<Longrightarrow> join sep ps \<noteq> []"
  by (induction sep ps rule: join.induct) auto

lemma last_join:
  "ps \<noteq> [] \<Longrightarrow> last ps \<noteq> [] \<Longrightarrow> last (join sep ps) = last (last ps)"
proof (induction sep ps rule: join.induct)
  case (3 sep p q ps)
  then have "join sep (q # ps) \<noteq> []" by (intro join_eq_Nil) auto
  with 3 show ?case by (simp add: last_append)
qed auto

lemma join_no_final_sep:
  assumes "\<And>p. p \<in> set ps \<Longrightarrow> p \<noteq> [] \<and> c \<notin> set p"
  shows "join sep ps = [] \<or> last (join sep ps) \<noteq> c"
proof (cases "ps = []")
  case True
  then show ?thesis by simp
next
  case False
  then have l: "last ps \<in> set ps" by simp
  with assms have ne: "last ps \<noteq> []" and nc: "c \<notin> set (last ps)" by auto
  from ne have "last (last ps) \<in> set (last ps)" by simp
  with nc have "last (last ps) \<noteq> c" by auto
  then show ?thesis using False ne by (simp add: last_join)
qed


lemma set_split_char: "f \<in> set (split_char sep s) \<Longrightarrow> set f \<subseteq> set s"
proof (induction s arbitrary: f)
  case Nil
  then show ?case by simp
next
  case (Cons c cs)
  obtain p ps where sp: "split_char sep cs = p # ps"
    using split_char_nonempty [of sep cs] by (cases "split_char sep cs") auto
  from Cons.prems sp have "f = [] \<or> f = c # p \<or> f = p \<or> f \<in> set ps"
    by (auto split: if_splits)
  moreover have "set p \<subseteq> set cs" using Cons.IH [of p] sp by simp
  moreover have "set q \<subseteq> set cs" if "q \<in> set ps" for q using Cons.IH [of q] sp that by simp
  ultimately show ?case by auto
qed

lemma set_join: "set (join sep ps) \<subseteq> set sep \<union> (\<Union>p \<in> set ps. set p)"
  by (induction sep ps rule: join.induct) auto

lemma summary_without_targets:
  "set (join (ascii ''. '') (filter (\<lambda>s. s \<noteq> []) (map strip (split_char 0x2E (clean_str t)))))
     \<inter> target_chars = {}"
proof -
  let ?frags = "filter (\<lambda>s. s \<noteq> []) (map strip (split_char 0x2E (clean_str t)))"
  have frag: "set q \<inter> target_chars = {}" if "q \<in> set ?frags" for q
  proof -
    from that obtain f where f: "f \<in> set (split_char 0x2E (clean_str t))" "q = strip f"
      by auto
    from f(1) have "set f \<subseteq> set (clean_str t)" by (rule set_split_char)
    with set_strip [of f] f(2) clean_str_clean [of t] show ?thesis by auto
  qed
  have sep: "set (ascii ''. '') \<inter> target_chars = {}"
    by (simp add: ascii_def target_chars_def)
  from set_join [of "ascii ''. ''" ?frags] frag sep show ?thesis by blast
qed

section \<open>Facts about the extractors\<close>

lemma explore_text_nonempty: "explore_text t \<noteq> []"
  by (simp add: explore_text_def ascii_def)

lemma cruise_include_Some:
  "cruise_include d = Some r \<Longrightarrow> day r \<noteq> [] \<and> title r \<noteq> [] \<and> body r \<noteq> []"
  by (auto simp: cruise_include_def explore_text_nonempty split: if_splits)

lemma cruise_include_generic:
  "cruise_include d = Some r \<Longrightarrow> body d = [] \<Longrightarrow> body r = explore_text (title r)"
  by (auto simp: cruise_include_def split: if_splits)

lemma cruise_item_total: "\<exists>r item'. cruise_item nd item = Inr (r, item')"
  by (auto simp: cruise_item_def py_index_def Let_def split: option.splits prod.splits)

lemma cruise_item_Some:
  "cruise_item nd item = Inr (Some r, item') \<Longrightarrow> day r \<noteq> [] \<and> title r \<noteq> [] \<and> body r \<noteq> []"
  by (auto simp: cruise_item_def py_index_def Let_def
      split: option.splits prod.splits if_splits dest: cruise_include_Some)

lemma cruise_item_few_divs:
  "length (bs_find_all_children [ascii ''div''] [] item) < 2 \<Longrightarrow> cruise_item nd item = Inr (None, item)"
  by (simp add: cruise_item_def cruise_include_def)

lemma cruise_loop_total: "\<exists>days soup'. cruise_loop nd soup ps = Inr (days, soup')"
proof (induction ps arbitrary: soup)
  case Nil
  then show ?case by simp
next
  case (Cons p ps)
  obtain r item' where it: "cruise_item nd (case node_at soup p of Some item \<Rightarrow> item | None \<Rightarrow> Decomposed) = Inr (r, item')"
    using cruise_item_total by blast
  from Cons.IH [of "update_at soup p item'"] obtain rs soup'
    where "cruise_loop nd (update_at soup p item') ps = Inr (rs, soup')"
    by blast
  with it show ?case by simp
qed

lemma cruise_loop_records:
  "cruise_loop nd soup ps = Inr (days, soup') \<Longrightarrow>
   d \<in> set days \<Longrightarrow> day d \<noteq> [] \<and> title d \<noteq> [] \<and> body d \<noteq> []"
proof (induction ps arbitrary: soup days)
  case Nil
  then show ?case by simp
next
  case (Cons p ps)
  from Cons.prems(1) obtain r item' rs where
    it: "cruise_item nd (case node_at soup p of Some item \<Rightarrow> item | None \<Rightarrow> Decomposed) = Inr (r, item')"
    and rest: "cruise_loop nd (update_at soup p item') ps = Inr (rs, soup')"
    and days: "days = (case r of None \<Rightarrow> [] | Some d \<Rightarrow> [d]) @ rs"
    by (auto split: sum.splits prod.splits)
  from Cons.prems(2) days consider "r = Some d" | "d \<in> set rs"
    by (auto split: option.splits)
  then show ?case
  proof cases
    case 1
    with it show ?thesis by (auto dest: cruise_item_Some)
  next
    case 2
    with Cons.IH [OF rest] show ?thesis by simp
  qed
qed

lemma parse_cruise_total: "\<exists>days soup'. parse_cruise_itinerary_days nd soup = Inr (days, soup')"
  by (simp add: parse_cruise_itinerary_days_def cruise_loop_total split: option.splits prod.splits)

lemma parse_cruise_records:
  "parse_cruise_itinerary_days nd soup = Inr (days, soup') \<Longrightarrow>
   d \<in> set days \<Longrightarrow> day d \<noteq> [] \<and> title d \<noteq> [] \<and> body d \<noteq> []"
  by (auto simp: parse_cruise_itinerary_days_def split: option.splits dest: cruise_loop_records)

lemma search_day_colon_nonempty: "search_day_colon nd s = Some ds \<Longrightarrow> ds \<noteq> []"
  by (induction s) (auto simp: match_day_colon_def Let_def split: option.splits if_splits)

lemma tour_item_Some:
  "tour_item nd item = Some r \<Longrightarrow> day r \<noteq> [] \<and> title r \<noteq> [] \<and> body r \<noteq> []"
  by (auto simp: tour_item_def Let_def split: option.splits if_splits dest: search_day_colon_nonempty)

lemma tour_item_empty_body: "tour_body item = [] \<Longrightarrow> tour_item nd item = None"
  by (auto simp: tour_item_def Let_def split: option.splits)

lemma parse_tour_records:
  "d \<in> set (parse_tour_itinerary_days nd soup) \<Longrightarrow> day d \<noteq> [] \<and> title d \<noteq> [] \<and> body d \<noteq> []"
  by (auto simp: parse_tour_itinerary_days_def List.map_filter_def
      split: option.splits dest: tour_item_Some)

section \<open>Decomposing and the text outside the removed elements\<close>

lemma foldl_decompose_Decomposed: "foldl decompose Decomposed qs = Decomposed"
proof (induction qs)
  case Nil
  then show ?case by simp
next
  case (Cons q qs)
  then show ?case by (cases q) (simp_all add: decompose_def)
qed

lemma foldl_decompose_child:
  "k < length ch \<Longrightarrow>
   foldl decompose (Tag nm cl ch) (map ((#) k) qs) = Tag nm cl (ch[k := foldl decompose (ch ! k) qs])"
proof (induction qs arbitrary: ch)
  case Nil
  then show ?case by simp
next
  case (Cons q qs)
  let ?ch = "ch[k := update_at (ch ! k) q Decomposed]"
  have "foldl decompose (Tag nm cl ch) (map ((#) k) (q # qs))
          = foldl decompose (Tag nm cl ?ch) (map ((#) k) qs)"
    using Cons.prems by (simp add: decompose_def)
  also have "\<dots> = Tag nm cl (?ch[k := foldl decompose (?ch ! k) qs])"
    using Cons.prems by (intro Cons.IH) simp
  also have "\<dots> = Tag nm cl (ch[k := foldl decompose (ch ! k) (q # qs)])"
    using Cons.prems by (simp add: decompose_def)
  finally show ?case .
qed

lemma paths_shift:
  "map fst (filter (\<lambda>(p, m). matches names cls m) (map (\<lambda>(p, n). (k # p, n)) xs))
     = map ((#) k) (map fst (filter (\<lambda>(p, m). matches names cls m) xs))"
  by (induction xs) auto

lemma decompose_matching_forest:
  "foldl decompose (Tag nm cl (pre @ cs))
     (map fst (filter (\<lambda>(p, m). matches names cls m) (descendants_from (length pre) cs)))
   = Tag nm cl (pre @ map (\<lambda>c. if matches names cls c then Decomposed
                                else decompose_matching names cls c) cs)"
proof (induction cs arbitrary: pre)
  case Nil
  then show ?case by simp
next
  case (Cons c cs)
  let ?m = "\<lambda>(p, m). matches names cls m"
  let ?R = "\<lambda>c. if matches names cls c then Decomposed else decompose_matching names cls c"
  let ?k = "length pre"
  let ?own = "(if matches names cls c then [[]] else []) @ map fst (filter ?m (descendants c))"
  have own: "map fst (filter ?m (if c = Decomposed then []
                 else ([?k], c) # map (\<lambda>(p, n). (?k # p, n)) (descendants c)))
             = map ((#) ?k) ?own"
    by (cases "c = Decomposed") (simp_all add: paths_shift)
  have child: "foldl decompose c ?own = ?R c"
    by (simp add: decompose_def foldl_decompose_Decomposed decompose_matching_def
        decompose_all_def bs_find_all_def)
  have "foldl decompose (Tag nm cl (pre @ c # cs)) (map ((#) ?k) ?own)
          = Tag nm cl ((pre @ c # cs)[?k := foldl decompose ((pre @ c # cs) ! ?k) ?own])"
    by (rule foldl_decompose_child) simp
  also have "\<dots> = Tag nm cl ((pre @ [?R c]) @ cs)"
    using child by simp
  finally have first: "foldl decompose (Tag nm cl (pre @ c # cs)) (map ((#) ?k) ?own)
          = Tag nm cl ((pre @ [?R c]) @ cs)" .
  have "foldl decompose (Tag nm cl (pre @ c # cs))
          (map fst (filter ?m (descendants_from ?k (c # cs))))
        = foldl decompose (Tag nm cl ((pre @ [?R c]) @ cs))
            (map fst (filter ?m (descendants_from (length (pre @ [?R c])) cs)))"
    using first own by simp
  also have "\<dots> = Tag nm cl ((pre @ [?R c]) @ map ?R cs)"
    by (rule Cons.IH)
  finally show ?case by simp
qed

lemma decompose_matching_Tag:
  "decompose_matching names cls (Tag nm cl ch)
   = Tag nm cl (map (\<lambda>c. if matches names cls c then Decomposed
                           else decompose_matching names cls c) ch)"
  using decompose_matching_forest [of nm cl "[]" ch names cls]
  by (simp add: decompose_matching_def decompose_all_def bs_find_all_def)

lemma decompose_matching_leaf:
  "decompose_matching names cls (Text s) = Text s"
  "decompose_matching names cls Decomposed = Decomposed"
  by (simp_all add: decompose_matching_def decompose_all_def bs_find_all_def)

lemma stripped_strings_decompose_matching:
  "stripped_strings (decompose_matching names cls n) = strings_outside names cls n"
proof (induction n)
  case (Tag nm cl ch)
  have "map stripped_strings (map (\<lambda>c. if matches names cls c then Decomposed
                           else decompose_matching names cls c) ch)
        = map (\<lambda>c. if matches names cls c then [] else strings_outside names cls c) ch"
    using Tag.IH by (induction ch) auto
  then show ?case by (simp add: decompose_matching_Tag del: map_map)
next
  case (Text s)
  then show ?case by (simp add: decompose_matching_leaf)
next
  case Decomposed
  then show ?case by (simp add: decompose_matching_leaf)
qed

section \<open>Facts about the body fallback and the day patterns\<close>

lemma first_hit_simps:
  "first_hit P [] = None"
  "first_hit P ((p, n) # xs) = (if P n then Some n else first_hit P xs)"
  by (simp_all add: first_hit_def)

lemma first_hit_append:
  "first_hit P (xs @ ys) = (case first_hit P xs of Some m \<Rightarrow> Some m | None \<Rightarrow> first_hit P ys)"
  by (induction xs) (auto simp: first_hit_simps)

lemma first_hit_shift: "first_hit P (map (\<lambda>(p, n). (i # p, n)) xs) = first_hit P xs"
  by (induction xs) (auto simp: first_hit_simps)

lemma first_hit_descendants:
  "first_hit P (descendants n) = first_below P n"
  "first_hit P (descendants_from k cs) = first_among P cs"
proof (induction n and k cs rule: descendants_descendants_from.induct)
  case (5 i c cs)
  then show ?case
    by (auto simp: first_hit_append first_hit_simps first_hit_shift split: option.splits)
qed (simp_all add: first_hit_simps)

lemma bs_find_first_below:
  "map_option snd (bs_find names cls n) = first_below (matches names cls) n"
  using first_hit_descendants(1) [of "matches names cls" n]
  by (auto simp: bs_find_def bs_find_all_def first_hit_def split: list.splits)

lemma bs_find_cases:
  "(case bs_find names cls n of None \<Rightarrow> a | Some (p, m) \<Rightarrow> f m)
     = (case first_below (matches names cls) n of None \<Rightarrow> a | Some m \<Rightarrow> f m)"
  using bs_find_first_below [of names cls n]
  by (cases "bs_find names cls n") (auto split: option.splits)

lemma tier_a_find:
  "tier_a cw =
     (case bs_find [ascii ''span''] [ascii ''text-info''] cw of
        None \<Rightarrow> []
      | Some (p, text_info) \<Rightarrow>
          (case bs_find [ascii ''span''] [ascii ''text-info-summary''] text_info of
             None \<Rightarrow> []
           | Some (q, text_summary) \<Rightarrow> get_text text_summary))"
  by (simp add: tier_a_def bs_find_cases cong: option.case_cong)

lemma tier_b_find:
  "tier_b_any_depth cw =
     (case bs_find [ascii ''span''] [ascii ''text-info-summary''] cw of
        None \<Rightarrow> []
      | Some (q, text_summary) \<Rightarrow> get_text text_summary)"
  by (simp add: tier_b_any_depth_def bs_find_cases)

lemma tier_c_find:
  "tier_c cw =
     (case bs_find [ascii ''div''] [ascii ''descr''] cw of
        None \<Rightarrow> []
      | Some (p, descr_div) \<Rightarrow>
          concat (strings_outside [ascii ''span''] [ascii ''more'', ascii ''less''] descr_div))"
  by (simp add: tier_c_def bs_find_cases)

lemma resolve_description_tiers:
  "fst (resolve_description cw) = first_nonempty [tier_a cw, tier_b_any_depth cw, tier_c cw]"
  by (auto simp: resolve_description_def tier_a_find tier_b_find tier_c_find Let_def get_text_def
      stripped_strings_decompose_matching [unfolded decompose_matching_def]
      split: option.splits)

lemma resolve_description_untouched:
  "first_nonempty [tier_a cw, tier_b_any_depth cw] \<noteq> [] \<Longrightarrow> snd (resolve_description cw) = cw"
  by (auto simp: resolve_description_def tier_a_find tier_b_find Let_def
      split: option.splits if_splits)

lemma clean_str_Nil_iff: "clean_str s = [] \<longleftrightarrow> s = []"
proof
  assume e: "clean_str s = []"
  show "s = []"
  proof (rule ccontr)
    assume ne: "s \<noteq> []"
    have step: "t \<noteq> [] \<Longrightarrow> a \<noteq> [] \<Longrightarrow> str_replace [c] a t \<noteq> []" for t a c
      by (cases t) (auto simp: str_replace_single)
    from ne have "apply_replacements s \<noteq> []"
      by (simp add: apply_replacements_def replacements_def step)
    with e ne show False by (simp add: clean_str_def)
  qed
qed (simp add: clean_str_def)

lemma resolve_body_tiers:
  "fst (resolve_body second_div) =
     (case first_below (matches [ascii ''div''] [ascii ''content-wrap'']) second_div of
        None \<Rightarrow> []
      | Some cw \<Rightarrow> clean_str (first_nonempty [tier_a cw, tier_b_any_depth cw, tier_c cw]))"
proof (cases "bs_find [ascii ''div''] [ascii ''content-wrap''] second_div")
  case None
  then show ?thesis
    using bs_find_first_below [of "[ascii ''div'']" "[ascii ''content-wrap'']" second_div]
    by (simp add: resolve_body_def)
next
  case (Some r)
  obtain p cw where r: "r = (p, cw)" by (cases r)
  obtain t cw' where rd: "resolve_description cw = (t, cw')" by (cases "resolve_description cw")
  from rd have "t = first_nonempty [tier_a cw, tier_b_any_depth cw, tier_c cw]"
    using resolve_description_tiers [of cw] by simp
  moreover from Some r
  have "first_below (matches [ascii ''div''] [ascii ''content-wrap'']) second_div = Some cw"
    using bs_find_first_below [of "[ascii ''div'']" "[ascii ''content-wrap'']" second_div]
    by simp
  ultimately show ?thesis using Some r rd
    by (simp add: resolve_body_def clean_str_def)
qed

lemma sea_day_text_nonempty: "sea_day_text \<noteq> []"
  by (simp add: sea_day_text_def ascii_def)

lemma at_sea_item:
  assumes "bs_find_all_children [ascii ''div''] [] item = (p1, d1) # (p2, d2) # others"
    and "cruise_item nd item = Inr (Some r, item')"
    and "title r = ascii ''At Sea''"
    and "fst (resolve_body d2) = []"
  shows "body r = sea_day_text"
  using assms
  by (auto simp: cruise_item_def py_index_def Let_def cruise_include_def sea_day_text_nonempty
      split: option.splits prod.splits if_splits)

lemma generic_body_item:
  assumes "bs_find_all_children [ascii ''div''] [] item = (p1, d1) # (p2, d2) # others"
    and "cruise_item nd item = Inr (Some r, item')"
    and "fst (resolve_body d2) = []"
    and "title r \<noteq> ascii ''At Sea''"
  shows "body r = ascii ''Explore '' @ title r @ ascii '' and enjoy the local attractions and culture.''"
  using assms
  by (auto simp: cruise_item_def py_index_def Let_def cruise_include_def explore_text_def
      split: option.splits prod.splits if_splits)

lemma resolved_body_item:
  assumes "bs_find_all_children [ascii ''div''] [] item = (p1, d1) # (p2, d2) # others"
    and "cruise_item nd item = Inr (Some r, item')"
    and "fst (resolve_body d2) \<noteq> []"
  shows "body r = fst (resolve_body d2)"
  using assms
  by (auto simp: cruise_item_def py_index_def Let_def cruise_include_def
      split: option.splits prod.splits if_splits)

lemma not_decimal_colon: "\<not> isdecimal nd 0x3A"
  by (simp add: isdecimal_def)

lemma match_day_colon_Some:
  assumes "match_day_colon nd s = Some (ds, rest)"
  shows "s = ascii ''Day '' @ ds @ [0x3A] @ rest \<and> ds \<noteq> [] \<and> list_all (isdecimal nd) ds"
proof -
  let ?r = "drop 4 s"
  from assms have pre: "prefix (ascii ''Day '') s"
    and ds: "ds = takeWhile (isdecimal nd) ?r" "ds \<noteq> []"
    and col: "prefix (ascii '':'') (dropWhile (isdecimal nd) ?r)"
    and rest: "rest = drop 1 (dropWhile (isdecimal nd) ?r)"
    by (auto simp: match_day_colon_def Let_def split: if_splits)
  from pre have "s = ascii ''Day '' @ ?r"
    by (auto simp: prefix_def ascii_def)
  moreover have "?r = ds @ dropWhile (isdecimal nd) ?r" using ds by simp
  moreover from col rest have "dropWhile (isdecimal nd) ?r = [0x3A] @ rest"
    by (auto simp: prefix_def ascii_def)
  moreover have "list_all (isdecimal nd) ds"
    using ds by (auto simp: list_all_iff dest: set_takeWhileD)
  ultimately show ?thesis using ds(2) by metis
qed

lemma match_day_colon_start:
  assumes "ds \<noteq> []" "list_all (isdecimal nd) ds"
  shows "match_day_colon nd (ascii ''Day '' @ ds @ [0x3A] @ rest) = Some (ds, rest)"
proof -
  have tw: "takeWhile (isdecimal nd) (ds @ 0x3A # rest) = ds"
    using assms(2) not_decimal_colon [of nd] by (simp add: list_all_iff takeWhile_append2 del: takeWhile_append2) (simp add: takeWhile_append2)
  have dw: "dropWhile (isdecimal nd) (ds @ 0x3A # rest) = 0x3A # rest"
    using assms(2) not_decimal_colon [of nd] by (simp add: list_all_iff dropWhile_append2)
  show ?thesis
    using assms(1) tw dw by (simp add: match_day_colon_def ascii_def Let_def)
qed

lemma search_day_colon_Some:
  "search_day_colon nd s = Some ds \<Longrightarrow>
   \<exists>pre rest. s = pre @ ascii ''Day '' @ ds @ [0x3A] @ rest \<and> ds \<noteq> [] \<and> list_all (isdecimal nd) ds"
proof (induction s)
  case Nil
  then show ?case by simp
next
  case (Cons c cs)
  show ?case
  proof (cases "match_day_colon nd (c # cs)")
    case None
    with Cons.prems have "search_day_colon nd cs = Some ds" by simp
    from Cons.IH [OF this] obtain pre rest where
      "cs = pre @ ascii ''Day '' @ ds @ [0x3A] @ rest" "ds \<noteq> []" "list_all (isdecimal nd) ds"
      by blast
    then have "c # cs = (c # pre) @ ascii ''Day '' @ ds @ [0x3A] @ rest" by simp
    with \<open>ds \<noteq> []\<close> \<open>list_all (isdecimal nd) ds\<close> show ?thesis by blast
  next
    case (Some m)
    obtain ds' rest where m: "m = (ds', rest)" by (cases m)
    with Some Cons.prems have "ds' = ds" by simp
    with Some m match_day_colon_Some [of nd "c # cs" ds rest]
    have "c # cs = [] @ ascii ''Day '' @ ds @ [0x3A] @ rest" "ds \<noteq> []" "list_all (isdecimal nd) ds"
      by simp_all
    then show ?thesis by blast
  qed
qed

lemma search_day_colon_start:
  assumes "ds \<noteq> []" "list_all (isdecimal nd) ds"
  shows "search_day_colon nd (ascii ''Day '' @ ds @ [0x3A] @ rest) = Some ds"
proof -
  obtain c cs where s: "ascii ''Day '' @ ds @ [0x3A] @ rest = c # cs"
    by (cases "ascii ''Day '' @ ds @ [0x3A] @ rest") (simp_all add: ascii_def)
  have "search_day_colon nd (c # cs) = Some ds"
    using match_day_colon_start [OF assms, of rest] s by simp
  with s show ?thesis by simp
qed

lemma tour_item_pattern:
  assumes "tour_title_text item = Some t"
  shows "(tour_item nd item = Some r \<longrightarrow>
            (\<exists>pre rest. t = pre @ ascii ''Day '' @ day r @ [0x3A] @ rest) \<and>
            day r \<noteq> [] \<and> list_all (isdecimal nd) (day r)) \<and>
         (t = ascii ''Day '' @ ds @ [0x3A] @ rest \<and> ds \<noteq> [] \<and> list_all (isdecimal nd) ds \<and>
          tour_item nd item = Some r \<longrightarrow>
            day r = ds \<and> title r = dropWhile isspace rest)"
proof (intro conjI impI)
  assume e: "tour_item nd item = Some r"
  with assms have "search_day_colon nd t = Some (day r)"
    by (auto simp: tour_item_def Let_def split: option.splits if_splits)
  from search_day_colon_Some [OF this]
  show "\<exists>pre rest. t = pre @ ascii ''Day '' @ day r @ [0x3A] @ rest"
    and "day r \<noteq> []" and "list_all (isdecimal nd) (day r)"
    by blast+
next
  assume a: "t = ascii ''Day '' @ ds @ [0x3A] @ rest \<and> ds \<noteq> [] \<and> list_all (isdecimal nd) ds \<and>
          tour_item nd item = Some r"
  then have t: "t = ascii ''Day '' @ ds @ [0x3A] @ rest"
    and d: "ds \<noteq> []" "list_all (isdecimal nd) ds" by simp_all
  have s: "search_day_colon nd t = Some ds"
    unfolding t using d by (rule search_day_colon_start)
  have m: "match_day_colon nd t = Some (ds, rest)"
    unfolding t using d by (rule match_day_colon_start)
  from a assms s m show "day r = ds" "title r = dropWhile isspace rest"
    by (auto simp: tour_item_def Let_def sub_day_prefix_def split: if_splits)
qed

lemma tour_item_no_title: "tour_title_text item = None \<Longrightarrow> tour_item nd item = None"
  by (simp add: tour_item_def)

section \<open>What the cruise extractor changes in the tree\<close>





































lemma st_find_reads:
  assumes "node_at soup r = Some n"
  shows "st_find names cls r soup = (map_option (\<lambda>(p, m). r @ p) (bs_find names cls n), soup)"
  using assms by (simp add: st_find_def)

lemma st_get_text_reads:
  "node_at soup r = Some n \<Longrightarrow> st_get_text r soup = (get_text n, soup)"
  by (simp add: st_get_text_def)








section \<open>The example pages, evaluated\<close>

lemmas tree_eval =
  elem_def ascii_def no_other_digits_def Let_def bs_find_def bs_find_all_def
  bs_find_all_children_def get_text_def strip_def isspace_def isdecimal_def
  clean_str_def apply_replacements_def replacements_def str_replace_def

lemmas cruise_eval =
  parse_cruise_itinerary_days_def cruise_item_def py_index_def cruise_day_def cruise_title_def
  resolve_body_def resolve_description_def decompose_all_def decompose_def
  match_day_number_def cruise_include_def explore_text_def sea_day_text_def

lemmas tour_eval =
  parse_tour_itinerary_days_def parse_tour_itinerary_description_def tour_item_def
  tour_title_text_def tour_body_def match_day_colon_def sub_day_prefix_def List.map_filter_def

lemma nassau_page_days:
  "parse_cruise_itinerary_days nd nassau_page = Inr ([nassau_day], nassau_page)"
  by (simp add: nassau_page_def nassau_wrap_def nassau_day_def tree_eval cruise_eval)


lemma sea_item_day: "cruise_item nd sea_item = Inr (Some sea_day, sea_item)"
  by (simp add: sea_item_def sea_day_def tree_eval cruise_eval)

lemma cozumel_item_day: "cruise_item nd cozumel_item = Inr (Some cozumel_day, cozumel_item)"
  by (simp add: cozumel_item_def cozumel_day_def tree_eval cruise_eval)

lemma stub_item_skipped: "cruise_item nd stub_item = Inr (None, stub_item)"
  by (simp add: stub_item_def tree_eval cruise_eval)

lemma mixed_page_days:
  "parse_cruise_itinerary_days nd mixed_page = Inr ([sea_day, cozumel_day], mixed_page)"
  by (simp add: mixed_page_def stub_item_def sea_item_def sea_day_def cozumel_day_def
      tree_eval cruise_eval)

lemma empty_page_days: "parse_cruise_itinerary_days nd empty_page = Inr ([], empty_page)"
  by (simp add: empty_page_def tree_eval cruise_eval)

lemma arrival_item_day: "tour_item nd arrival_item = Some arrival_day"
  by (simp add: arrival_item_def arrival_day_def tree_eval tour_eval)

lemma hoi_an_item_day: "tour_item nd hoi_an_item = Some hoi_an_day"
  by (simp add: hoi_an_item_def hoi_an_day_def tree_eval tour_eval)

lemma tour_page_days: "parse_tour_itinerary_days nd tour_page = [hoi_an_day]"
  by (simp add: tour_page_def hoi_an_item_def hoi_an_day_def silent_item_def summary_elem_def
      tree_eval tour_eval)

lemma tour_page_summary:
  "parse_tour_itinerary_description tour_page = [ascii ''Ten days. Hanoi to Saigon'']"
  by (simp add: tour_page_def hoi_an_item_def silent_item_def summary_elem_def
      tree_eval tour_eval)

lemma typographic_summary:
  "parse_tour_itinerary_description typographic_page
     = [ascii ''Hanoi - Saigon. Don'' @ [0x27] @ ascii ''t rush'']"
  by (simp add: typographic_page_def typographic_elem_def tree_eval tour_eval)

section \<open>Claims\<close>

text \<open>
  C5: the text normalizer is idempotent; a string with none of the seven target characters
  is returned unchanged; an absent input (\<open>None\<close>) is returned unchanged.
\<close>

theorem clean_text_idempotent:
  "clean_text (clean_text t) = clean_text t \<and>
   (set s \<inter> target_chars = {} \<longrightarrow> clean_text (Some s) = Some s) \<and>
   clean_text None = None"
  by (cases t) (simp_all add: clean_text_def clean_str_idem clean_str_fixed)

theorem clean_text_idempotent_witness:
  "clean_text (clean_text (Some [0x61, 0x2013, 0x62, 0x2026])) = clean_text (Some [0x61, 0x2013, 0x62, 0x2026]) \<and>
   clean_text (Some [0x61, 0x2013, 0x62, 0x2026]) = Some (ascii ''a-b...'') \<and>
   set (ascii ''Day 1'') \<inter> target_chars = {} \<and>
   clean_text (Some (ascii ''Day 1'')) = Some (ascii ''Day 1'') \<and>
   clean_text None = None"
proof -
  have free: "set (ascii ''Day 1'') \<inter> target_chars = {}"
    by (simp add: ascii_def target_chars_def)
  have val: "clean_text (Some [0x61, 0x2013, 0x62, 0x2026]) = Some (ascii ''a-b...'')"
    by (simp add: clean_text_def clean_str_def apply_replacements_def replacements_def
        str_replace_def ascii_def)
  from clean_text_idempotent [of "Some [0x61, 0x2013, 0x62, 0x2026]" "ascii ''Day 1''"] free val
  show ?thesis by simp
qed

text \<open>
  C1: every record that either extractor emits has a day, a title and a body that are not
  empty. In the cruise extractor, the record of an item whose body resolution gave a text
  has that text as its body, and the record of an item whose body resolution gave no text
  and whose title is not "At Sea" has the body "Explore {title} and enjoy the local
  attractions and culture." The tour extractor drops an item whose body is empty, and its
  records have a day although its inclusion rule tests the title and the body only.
\<close>

theorem emitted_records_nonempty:
  "(parse_cruise_itinerary_days nd soup = Inr (days, soup') \<and> d \<in> set days \<longrightarrow>
      day d \<noteq> [] \<and> title d \<noteq> [] \<and> body d \<noteq> []) \<and>
   (d \<in> set (parse_tour_itinerary_days nd soup) \<longrightarrow>
      day d \<noteq> [] \<and> title d \<noteq> [] \<and> body d \<noteq> []) \<and>
   (bs_find_all_children [ascii ''div''] [] item = (p1, d1) # (p2, d2) # others \<and>
    cruise_item nd item = Inr (Some r, item') \<and> fst (resolve_body d2) = [] \<and>
    title r \<noteq> ascii ''At Sea'' \<longrightarrow>
      body r = ascii ''Explore '' @ title r @ ascii '' and enjoy the local attractions and culture.'') \<and>
   (bs_find_all_children [ascii ''div''] [] item = (p1, d1) # (p2, d2) # others \<and>
    cruise_item nd item = Inr (Some r, item') \<and> fst (resolve_body d2) \<noteq> [] \<longrightarrow>
      body r = fst (resolve_body d2)) \<and>
   (tour_body li = [] \<longrightarrow> tour_item nd li = None)"
  using parse_cruise_records [of nd soup days soup' d] parse_tour_records [of d nd soup]
    generic_body_item [of item p1 d1 p2 d2 others nd r item']
    resolved_body_item [of item p1 d1 p2 d2 others nd r item']
    tour_item_empty_body [of li nd]
  by blast

theorem emitted_records_nonempty_witness:
  "parse_cruise_itinerary_days no_other_digits mixed_page = Inr ([sea_day, cozumel_day], mixed_page) \<and>
   cozumel_day \<in> set [sea_day, cozumel_day] \<and>
   day cozumel_day \<noteq> [] \<and> title cozumel_day \<noteq> [] \<and> body cozumel_day \<noteq> [] \<and>
   hoi_an_day \<in> set (parse_tour_itinerary_days no_other_digits tour_page) \<and>
   day hoi_an_day \<noteq> [] \<and> title hoi_an_day \<noteq> [] \<and> body hoi_an_day \<noteq> [] \<and>
   bs_find_all_children [ascii ''div''] [] cozumel_item =
     [([0], elem ''div'' [] [elem ''h5'' [] [Text (ascii ''Day 5'')]]),
      ([1], elem ''div'' [] [elem ''h5'' [] [Text (ascii ''Cozumel'')]])] \<and>
   cruise_item no_other_digits cozumel_item = Inr (Some cozumel_day, cozumel_item) \<and>
   fst (resolve_body (elem ''div'' [] [elem ''h5'' [] [Text (ascii ''Cozumel'')]])) = [] \<and>
   title cozumel_day = ascii ''Cozumel'' \<and> title cozumel_day \<noteq> ascii ''At Sea'' \<and>
   body cozumel_day =
     ascii ''Explore '' @ title cozumel_day @ ascii '' and enjoy the local attractions and culture.'' \<and>
   body cozumel_day = ascii ''Explore Cozumel and enjoy the local attractions and culture.'' \<and>
   tour_body silent_item = [] \<and> tour_item no_other_digits silent_item = None"
proof -
  let ?d1 = "elem ''div'' [] [elem ''h5'' [] [Text (ascii ''Day 5'')]]"
  let ?d2 = "elem ''div'' [] [elem ''h5'' [] [Text (ascii ''Cozumel'')]]"
  have c: "parse_cruise_itinerary_days no_other_digits mixed_page
             = Inr ([sea_day, cozumel_day], mixed_page)"
    by (rule mixed_page_days)
  have m: "cozumel_day \<in> set [sea_day, cozumel_day]" by simp
  have t: "hoi_an_day \<in> set (parse_tour_itinerary_days no_other_digits tour_page)"
    by (simp add: tour_page_days)
  have k: "bs_find_all_children [ascii ''div''] [] cozumel_item = ([0], ?d1) # ([1], ?d2) # []"
    by (simp add: cozumel_item_def tree_eval)
  have i: "cruise_item no_other_digits cozumel_item = Inr (Some cozumel_day, cozumel_item)"
    by (rule cozumel_item_day)
  have e: "fst (resolve_body ?d2) = []"
    by (simp add: tree_eval cruise_eval)
  have n: "title cozumel_day = ascii ''Cozumel''" "title cozumel_day \<noteq> ascii ''At Sea''"
    by (simp_all add: cozumel_day_def ascii_def)
  have l: "body cozumel_day = ascii ''Explore Cozumel and enjoy the local attractions and culture.''"
    by (simp add: cozumel_day_def)
  have b: "tour_body silent_item = []"
    by (simp add: silent_item_def tree_eval tour_eval)
  note cruise =
    emitted_records_nonempty
      [where nd = no_other_digits and soup = mixed_page and days = "[sea_day, cozumel_day]"
         and soup' = mixed_page and d = cozumel_day and item = cozumel_item and ?p1.0 = "[0]"
         and ?d1.0 = ?d1 and ?p2.0 = "[1]" and ?d2.0 = ?d2 and others = "[]"
         and r = cozumel_day and item' = cozumel_item and li = silent_item]
  note tour =
    emitted_records_nonempty
      [where nd = no_other_digits and soup = tour_page and d = hoi_an_day]
  from cruise c m have r1: "day cozumel_day \<noteq> [] \<and> title cozumel_day \<noteq> [] \<and> body cozumel_day \<noteq> []"
    by blast
  from tour t have r2: "day hoi_an_day \<noteq> [] \<and> title hoi_an_day \<noteq> [] \<and> body hoi_an_day \<noteq> []"
    by blast
  from cruise k i e n have r3: "body cozumel_day =
     ascii ''Explore '' @ title cozumel_day @ ascii '' and enjoy the local attractions and culture.''"
    by blast
  from cruise b have r4: "tour_item no_other_digits silent_item = None"
    by blast
  from c m t k i e n l b r1 r2 r3 r4 show ?thesis by simp
qed

text \<open>
  C2: a URL that contains \<open>cruises.flightcentre\<close> is classified as a cruise; otherwise one
  that contains \<open>tours.flightcentre\<close> is classified as a tour; otherwise it is not
  recognized, and then \<open>scrape_content\<close> fails with the error for an unrecognized URL and
  requests nothing.
\<close>

theorem classify_url:
  "(sublist (ascii ''cruises.flightcentre'') url \<longrightarrow>
      determine_scraper_type url = Some (ascii ''cruise'')) \<and>
   (\<not> sublist (ascii ''cruises.flightcentre'') url \<and> sublist (ascii ''tours.flightcentre'') url \<longrightarrow>
      determine_scraper_type url = Some (ascii ''tour'')) \<and>
   (\<not> sublist (ascii ''cruises.flightcentre'') url \<and> \<not> sublist (ascii ''tours.flightcentre'') url \<longrightarrow>
      determine_scraper_type url = None \<and>
      scrape_content nd env url requested = (Inl UnrecognizedUrl, requested))"
  by (simp add: determine_scraper_type_def contains_iff_sublist scrape_content_def)

theorem classify_url_witness:
  "determine_scraper_type (ascii ''cruises.flightcentre.com.au/tours.flightcentre'')
     = Some (ascii ''cruise'') \<and>
   determine_scraper_type (ascii ''tours.flightcentre.com.au/x'') = Some (ascii ''tour'') \<and>
   determine_scraper_type (ascii ''example.com/cruises'') = None \<and>
   scrape_content no_other_digits offline (ascii ''example.com/cruises'') []
     = (Inl UnrecognizedUrl, [])"
proof -
  have a: "sublist (ascii ''cruises.flightcentre'')
             (ascii ''cruises.flightcentre.com.au/tours.flightcentre'')"
    unfolding contains_iff_sublist [symmetric] by (simp add: ascii_def)
  have b: "\<not> sublist (ascii ''cruises.flightcentre'') (ascii ''tours.flightcentre.com.au/x'')"
    "sublist (ascii ''tours.flightcentre'') (ascii ''tours.flightcentre.com.au/x'')"
    unfolding contains_iff_sublist [symmetric] by (simp_all add: ascii_def)
  have c: "\<not> sublist (ascii ''cruises.flightcentre'') (ascii ''example.com/cruises'')"
    "\<not> sublist (ascii ''tours.flightcentre'') (ascii ''example.com/cruises'')"
    unfolding contains_iff_sublist [symmetric] by (simp_all add: ascii_def)
  from classify_url [where url = "ascii ''cruises.flightcentre.com.au/tours.flightcentre''"]
       classify_url [where url = "ascii ''tours.flightcentre.com.au/x''"]
       classify_url [where url = "ascii ''example.com/cruises''" and nd = no_other_digits
          and env = offline and requested = "[]"]
       a b c
  show ?thesis by blast
qed

text \<open>
  C3, amended: in the cruise extractor the description of a day is the first text that is
  not empty among three tiers, tried in this order: (a) the text of the first
  \<open>text-info-summary\<close> span inside the first \<open>text-info\<close> span of the content wrapper,
  (b) the text of the first \<open>text-info-summary\<close> span anywhere inside the content wrapper,
  in document order and at any depth, also one nested in a \<open>text-info\<close> span, (c) the text
  of the first \<open>descr\<close> element with its \<open>more\<close> and \<open>less\<close> spans removed before the text
  is read. When tier (a) or (b) gives a text nothing is removed. The body is that text,
  normalized. The page with the headings "Day 3" and "Nassau" and the tier (a) text
  "Explore the beaches." gives exactly the record with day "3", title "Nassau", that body,
  and empty icon and image.
\<close>

theorem body_fallback_chain:
  "fst (resolve_description cw) = first_nonempty [tier_a cw, tier_b_any_depth cw, tier_c cw] \<and>
   (first_nonempty [tier_a cw, tier_b_any_depth cw] \<noteq> [] \<longrightarrow> snd (resolve_description cw) = cw) \<and>
   fst (resolve_body second_div) =
     (case first_below (matches [ascii ''div''] [ascii ''content-wrap'']) second_div of
        None \<Rightarrow> []
      | Some w \<Rightarrow> clean_str (first_nonempty [tier_a w, tier_b_any_depth w, tier_c w])) \<and>
   parse_cruise_itinerary_days nd nassau_page =
     Inr ([\<lparr>icon = [], day = ascii ''3'', title = ascii ''Nassau'', image' = [],
            body = ascii ''Explore the beaches.''\<rparr>], nassau_page)"
proof -
  have "fst (resolve_description cw) = first_nonempty [tier_a cw, tier_b_any_depth cw, tier_c cw]"
    by (rule resolve_description_tiers)
  moreover have "first_nonempty [tier_a cw, tier_b_any_depth cw] \<noteq> [] \<longrightarrow>
      snd (resolve_description cw) = cw"
    using resolve_description_untouched [of cw] by blast
  moreover note resolve_body_tiers [of second_div]
  moreover have "parse_cruise_itinerary_days nd nassau_page =
     Inr ([\<lparr>icon = [], day = ascii ''3'', title = ascii ''Nassau'', image' = [],
            body = ascii ''Explore the beaches.''\<rparr>], nassau_page)"
    using nassau_page_days [of nd] by (simp add: nassau_day_def)
  ultimately show ?thesis by blast
qed

theorem body_fallback_chain_witness:
  "tier_a nassau_wrap = ascii ''Explore the beaches.'' \<and>
   fst (resolve_description nassau_wrap) = ascii ''Explore the beaches.'' \<and>
   snd (resolve_description nassau_wrap) = nassau_wrap \<and>
   tier_a summary_wrap = [] \<and> tier_b_any_depth summary_wrap = ascii ''Old town.'' \<and>
   fst (resolve_description summary_wrap) = ascii ''Old town.'' \<and>
   snd (resolve_description summary_wrap) = summary_wrap \<and>
   tier_a descr_wrap = [] \<and> tier_b_any_depth descr_wrap = [] \<and>
   tier_c descr_wrap = ascii ''Sunny port.'' \<and>
   fst (resolve_description descr_wrap) = ascii ''Sunny port.'' \<and>
   tier_a blank_wrap = [] \<and> tier_b_any_depth blank_wrap = [] \<and> tier_c blank_wrap = ascii ''C'' \<and>
   fst (resolve_description blank_wrap) = ascii ''C''"
proof -
  have a: "tier_a nassau_wrap = ascii ''Explore the beaches.''"
    by (simp add: nassau_wrap_def tier_a_def tree_eval)
  have b: "tier_a summary_wrap = []" "tier_b_any_depth summary_wrap = ascii ''Old town.''"
    by (simp_all add: summary_wrap_def tier_a_def tier_b_any_depth_def tree_eval)
  have c: "tier_a descr_wrap = []" "tier_b_any_depth descr_wrap = []"
    "tier_c descr_wrap = ascii ''Sunny port.''"
    by (simp_all add: descr_wrap_def tier_a_def tier_b_any_depth_def tier_c_def tree_eval)
  have d: "tier_a blank_wrap = []" "tier_b_any_depth blank_wrap = []"
    "tier_c blank_wrap = ascii ''C''"
    by (simp_all add: blank_wrap_def tier_a_def tier_b_any_depth_def tier_c_def tree_eval)
  have ne: "ascii ''Explore the beaches.'' \<noteq> []" "ascii ''Old town.'' \<noteq> []"
    by (simp_all add: ascii_def)
  from body_fallback_chain [where cw = nassau_wrap] a ne
  have r1: "fst (resolve_description nassau_wrap) = ascii ''Explore the beaches.''"
    "snd (resolve_description nassau_wrap) = nassau_wrap"
    by simp_all
  from body_fallback_chain [where cw = summary_wrap] b ne
  have r2: "fst (resolve_description summary_wrap) = ascii ''Old town.''"
    "snd (resolve_description summary_wrap) = summary_wrap"
    by simp_all
  from body_fallback_chain [where cw = descr_wrap] c
  have r3: "fst (resolve_description descr_wrap) = ascii ''Sunny port.''"
    by simp
  from body_fallback_chain [where cw = blank_wrap] d
  have r4: "fst (resolve_description blank_wrap) = ascii ''C''"
    by simp
  from a b c d r1 r2 r3 r4 show ?thesis by blast
qed

text \<open>
  C3 as stated, refuted: with tier (b) read as the claim words it, a top-level
  \<open>text-info-summary\<close> span of the content wrapper, the chain gives "B" on the content
  wrapper \<open>blank_wrap\<close>, whose top-level span holds "B". The extractor gives "C": its second
  search finds the blank span nested in the \<open>text-info\<close> span first, so tier (b) fails and
  tier (c) is taken.
\<close>

theorem body_fallback_top_level_counterexample:
  "tier_a blank_wrap = [] \<and>
   tier_b_top_level blank_wrap = ascii ''B'' \<and>
   tier_c blank_wrap = ascii ''C'' \<and>
   first_nonempty [tier_a blank_wrap, tier_b_top_level blank_wrap, tier_c blank_wrap] = ascii ''B'' \<and>
   fst (resolve_description blank_wrap) = ascii ''C'' \<and>
   ascii ''B'' \<noteq> ascii ''C''"
proof -
  have "tier_a blank_wrap = []"
    by (simp add: blank_wrap_def tier_a_def tree_eval)
  moreover have "tier_b_top_level blank_wrap = ascii ''B''"
    by (simp add: blank_wrap_def tier_b_top_level_def tree_eval)
  moreover have "tier_c blank_wrap = ascii ''C''"
    by (simp add: blank_wrap_def tier_c_def tree_eval)
  moreover have "fst (resolve_description blank_wrap) = ascii ''C''"
    by (simp add: blank_wrap_def resolve_description_def decompose_all_def tree_eval)
  moreover have "ascii ''B'' \<noteq> ascii ''C''"
    by (simp add: ascii_def)
  ultimately show ?thesis by (simp add: ascii_def)
qed

text \<open>
  C4, amended: in the tour extractor the title text of an accordion item is searched for
  \<open>Day <N>:\<close> anywhere in the text. An item without a title element is skipped, and every
  item that is emitted has such an occurrence in its title text, with the digits of one
  occurrence as its day. When the title text starts with \<open>Day <N>:\<close>, the day is \<open>N\<close> and the
  title is the rest of the text without the whitespace that follows the colon.
\<close>

theorem tour_day_pattern:
  "(tour_title_text item = None \<longrightarrow> tour_item nd item = None) \<and>
   (tour_title_text item = Some t \<and> tour_item nd item = Some r \<longrightarrow>
      (\<exists>pre rest. t = pre @ ascii ''Day '' @ day r @ [0x3A] @ rest) \<and>
      day r \<noteq> [] \<and> list_all (isdecimal nd) (day r)) \<and>
   (tour_title_text item = Some t \<and> t = ascii ''Day '' @ ds @ [0x3A] @ rest \<and> ds \<noteq> [] \<and>
    list_all (isdecimal nd) ds \<and> tour_item nd item = Some r \<longrightarrow>
      day r = ds \<and> title r = dropWhile isspace rest)"
  using tour_item_no_title [of item nd] tour_item_pattern [of item t nd r ds rest]
  by blast

theorem tour_day_pattern_witness:
  "tour_title_text (elem ''li'' [''js-ao-common-accordion''] [Text (ascii ''Inclusions'')]) = None \<and>
   tour_item no_other_digits (elem ''li'' [''js-ao-common-accordion''] [Text (ascii ''Inclusions'')])
     = None \<and>
   tour_title_text hoi_an_item = Some (ascii ''Day 2: Hoi An'') \<and>
   ascii ''Day 2: Hoi An'' = ascii ''Day '' @ ascii ''2'' @ [0x3A] @ ascii '' Hoi An'' \<and>
   ascii ''2'' \<noteq> [] \<and> list_all (isdecimal no_other_digits) (ascii ''2'') \<and>
   tour_item no_other_digits hoi_an_item = Some hoi_an_day \<and>
   day hoi_an_day = ascii ''2'' \<and> title hoi_an_day = dropWhile isspace (ascii '' Hoi An'') \<and>
   dropWhile isspace (ascii '' Hoi An'') = ascii ''Hoi An''"
proof -
  let ?row = "elem ''li'' [''js-ao-common-accordion''] [Text (ascii ''Inclusions'')]"
  have n: "tour_title_text ?row = None"
    by (simp add: tree_eval tour_eval)
  have t: "tour_title_text hoi_an_item = Some (ascii ''Day 2: Hoi An'')"
    by (simp add: hoi_an_item_def tree_eval tour_eval)
  have s: "ascii ''Day 2: Hoi An'' = ascii ''Day '' @ ascii ''2'' @ [0x3A] @ ascii '' Hoi An''"
    by (simp add: ascii_def)
  have d: "ascii ''2'' \<noteq> []" "list_all (isdecimal no_other_digits) (ascii ''2'')"
    by (simp_all add: ascii_def isdecimal_def)
  have e: "tour_item no_other_digits hoi_an_item = Some hoi_an_day"
    by (rule hoi_an_item_day)
  have w: "dropWhile isspace (ascii '' Hoi An'') = ascii ''Hoi An''"
    by (simp add: ascii_def isspace_def)
  from tour_day_pattern [where item = ?row and nd = no_other_digits] n
  have r1: "tour_item no_other_digits ?row = None" by blast
  from tour_day_pattern
         [where item = hoi_an_item and nd = no_other_digits and t = "ascii ''Day 2: Hoi An''"
            and r = hoi_an_day and ds = "ascii ''2''" and rest = "ascii '' Hoi An''"]
       t s d e
  have r2: "day hoi_an_day = ascii ''2'' \<and> title hoi_an_day = dropWhile isspace (ascii '' Hoi An'')"
    by blast
  from n t s d e w r1 r2 show ?thesis by blast
qed

text \<open>
  C4 as stated, refuted: the title text "Arrival Day 1: Hanoi" does not match \<open>Day <N>:\<close>
  at its start, yet the item is emitted, with day "1" and the whole text as its title.
\<close>

theorem tour_day_at_start_counterexample:
  "tour_title_text arrival_item = Some (ascii ''Arrival Day 1: Hanoi'') \<and>
   match_day_colon no_other_digits (ascii ''Arrival Day 1: Hanoi'') = None \<and>
   tour_item no_other_digits arrival_item = Some arrival_day \<and>
   day arrival_day = ascii ''1'' \<and>
   title arrival_day = ascii ''Arrival Day 1: Hanoi''"
proof -
  have "tour_title_text arrival_item = Some (ascii ''Arrival Day 1: Hanoi'')"
    by (simp add: arrival_item_def tree_eval tour_eval)
  moreover have "match_day_colon no_other_digits (ascii ''Arrival Day 1: Hanoi'') = None"
    by (simp add: match_day_colon_def ascii_def)
  moreover have "tour_item no_other_digits arrival_item = Some arrival_day"
    by (rule arrival_item_day)
  moreover have "day arrival_day = ascii ''1''" "title arrival_day = ascii ''Arrival Day 1: Hanoi''"
    by (simp_all add: arrival_day_def)
  ultimately show ?thesis by blast
qed

text \<open>
  C6: in the cruise extractor, when an item (with its two child blocks) is emitted with the
  title "At Sea" and the body resolution of its second block gave no text, the body of the
  record is the sentence "Day at sea - enjoy the ship's amenities and relax as you cruise
  to your next destination."
\<close>

theorem at_sea_body:
  "bs_find_all_children [ascii ''div''] [] item = (p1, d1) # (p2, d2) # others \<Longrightarrow>
   cruise_item nd item = Inr (Some r, item') \<Longrightarrow>
   title r = ascii ''At Sea'' \<Longrightarrow>
   fst (resolve_body d2) = [] \<Longrightarrow>
   body r = sea_day_text"
  by (rule at_sea_item)

theorem at_sea_body_witness:
  "bs_find_all_children [ascii ''div''] [] sea_item =
     [([0], elem ''div'' [] [elem ''h5'' [] [Text (ascii ''Day 4'')]]),
      ([1], elem ''div'' [] [elem ''h5'' [] [Text (ascii ''At Sea'')]])] \<and>
   cruise_item no_other_digits sea_item = Inr (Some sea_day, sea_item) \<and>
   title sea_day = ascii ''At Sea'' \<and>
   fst (resolve_body (elem ''div'' [] [elem ''h5'' [] [Text (ascii ''At Sea'')]])) = [] \<and>
   body sea_day = sea_day_text \<and>
   sea_day_text =
     ascii ''Day at sea - enjoy the ship'' @ [0x27] @
     ascii ''s amenities and relax as you cruise to your next destination.''"
proof -
  have c: "bs_find_all_children [ascii ''div''] [] sea_item =
     [([0], elem ''div'' [] [elem ''h5'' [] [Text (ascii ''Day 4'')]]),
      ([1], elem ''div'' [] [elem ''h5'' [] [Text (ascii ''At Sea'')]])]"
    by (simp add: sea_item_def tree_eval)
  have e: "cruise_item no_other_digits sea_item = Inr (Some sea_day, sea_item)"
    by (rule sea_item_day)
  have t: "title sea_day = ascii ''At Sea''"
    by (simp add: sea_day_def)
  have b: "fst (resolve_body (elem ''div'' [] [elem ''h5'' [] [Text (ascii ''At Sea'')]])) = []"
    by (simp add: tree_eval cruise_eval)
  have "body sea_day = sea_day_text"
    by (rule at_sea_body [OF c e t b])
  with c e t b show ?thesis by (simp add: sea_day_text_def)
qed

text \<open>
  C7: the tour summary is always a list of exactly one string. Without the itinerary
  description element it is the empty string. With it, it is the normalized text of the
  element (every character of the text replaced by its normalization, so that the summary
  has none of the seven typographic characters), split at every \<open>.\<close> (the fragments joined
  with \<open>.\<close> give the text back, and no fragment contains \<open>.\<close>), the fragments trimmed, the
  empty ones dropped, and the rest joined with \<open>. \<close>.
\<close>

theorem tour_summary_single:
  "length (parse_tour_itinerary_description soup) = 1 \<and>
   (bs_find [ascii ''div''] [ascii ''ao-clp-custom-tdp-itinerary__description''] soup = None \<longrightarrow>
      parse_tour_itinerary_description soup = [[]]) \<and>
   (bs_find [ascii ''div''] [ascii ''ao-clp-custom-tdp-itinerary__description''] soup = Some (p, e) \<longrightarrow>
      parse_tour_itinerary_description soup =
        [join (ascii ''. '')
           (filter (\<lambda>s. s \<noteq> [])
              (map strip (split_char 0x2E (concat (map normalize_char (get_text e))))))]) \<and>
   (x \<in> set (parse_tour_itinerary_description soup) \<longrightarrow> set x \<inter> target_chars = {}) \<and>
   join [0x2E] (split_char 0x2E s) = s \<and>
   (f \<in> set (split_char 0x2E s) \<longrightarrow> 0x2E \<notin> set f)"
proof -
  have "set x \<inter> target_chars = {}" if "x \<in> set (parse_tour_itinerary_description soup)"
    using that summary_without_targets
    by (auto simp: parse_tour_itinerary_description_def filter_strip_sentences Let_def
        split: option.splits)
  then show ?thesis
    using split_char_no_sep [of f "0x2E" s]
    by (auto simp: parse_tour_itinerary_description_def filter_strip_sentences Let_def
        join_split_char clean_str_pointwise split: option.splits)
qed

theorem tour_summary_single_witness:
  "bs_find [ascii ''div''] [ascii ''ao-clp-custom-tdp-itinerary__description''] empty_page = None \<and>
   parse_tour_itinerary_description empty_page = [[]] \<and>
   bs_find [ascii ''div''] [ascii ''ao-clp-custom-tdp-itinerary__description''] tour_page
     = Some ([0], summary_elem) \<and>
   get_text summary_elem = ascii ''Ten days.  Hanoi to Saigon.'' \<and>
   split_char 0x2E (ascii ''Ten days.  Hanoi to Saigon.'')
     = [ascii ''Ten days'', ascii ''  Hanoi to Saigon'', []] \<and>
   parse_tour_itinerary_description tour_page = [ascii ''Ten days. Hanoi to Saigon''] \<and>
   length (parse_tour_itinerary_description tour_page) = 1 \<and>
   ascii ''Ten days'' \<in> set (split_char 0x2E (ascii ''Ten days.  Hanoi to Saigon.'')) \<and>
   0x2E \<notin> set (ascii ''Ten days'') \<and>
   bs_find [ascii ''div''] [ascii ''ao-clp-custom-tdp-itinerary__description''] typographic_page
     = Some ([0], typographic_elem) \<and>
   get_text typographic_elem =
     ascii ''Hanoi '' @ [0x2013] @ ascii '' Saigon.  Don'' @ [0x2019] @ ascii ''t rush'' @ [0x2026] \<and>
   concat (map normalize_char (get_text typographic_elem)) =
     ascii ''Hanoi - Saigon.  Don'' @ [0x27] @ ascii ''t rush...'' \<and>
   parse_tour_itinerary_description typographic_page =
     [ascii ''Hanoi - Saigon. Don'' @ [0x27] @ ascii ''t rush''] \<and>
   (ascii ''Hanoi - Saigon. Don'' @ [0x27] @ ascii ''t rush'')
     \<in> set (parse_tour_itinerary_description typographic_page) \<and>
   set (ascii ''Hanoi - Saigon. Don'' @ [0x27] @ ascii ''t rush'') \<inter> target_chars = {}"
proof -
  let ?d = "[ascii ''div'']" and ?c = "[ascii ''ao-clp-custom-tdp-itinerary__description'']"
  let ?out = "ascii ''Hanoi - Saigon. Don'' @ [0x27] @ ascii ''t rush''"
  have n: "bs_find ?d ?c empty_page = None"
    by (simp add: empty_page_def tree_eval)
  have f: "bs_find ?d ?c tour_page = Some ([0], summary_elem)"
    by (simp add: tour_page_def summary_elem_def hoi_an_item_def silent_item_def tree_eval)
  have g: "get_text summary_elem = ascii ''Ten days.  Hanoi to Saigon.''"
    by (simp add: summary_elem_def tree_eval)
  have sp: "split_char 0x2E (ascii ''Ten days.  Hanoi to Saigon.'')
     = [ascii ''Ten days'', ascii ''  Hanoi to Saigon'', []]"
    by (simp add: ascii_def)
  have v: "parse_tour_itinerary_description tour_page = [ascii ''Ten days. Hanoi to Saigon'']"
    by (rule tour_page_summary)
  have m: "ascii ''Ten days'' \<in> set (split_char 0x2E (ascii ''Ten days.  Hanoi to Saigon.''))"
    unfolding sp by simp
  have tf: "bs_find ?d ?c typographic_page = Some ([0], typographic_elem)"
    by (simp add: typographic_page_def typographic_elem_def tree_eval)
  have tg: "get_text typographic_elem =
     ascii ''Hanoi '' @ [0x2013] @ ascii '' Saigon.  Don'' @ [0x2019] @ ascii ''t rush'' @ [0x2026]"
    by (simp add: typographic_elem_def tree_eval)
  have tn: "concat (map normalize_char (get_text typographic_elem)) =
     ascii ''Hanoi - Saigon.  Don'' @ [0x27] @ ascii ''t rush...''"
    unfolding tg by (simp add: normalize_char_def ascii_def)
  have tj: "join (ascii ''. '')
       (filter (\<lambda>s. s \<noteq> [])
          (map strip (split_char 0x2E (ascii ''Hanoi - Saigon.  Don'' @ [0x27] @ ascii ''t rush...''))))
     = ?out"
    by (simp add: ascii_def strip_def isspace_def)
  note empty = tour_summary_single [where soup = empty_page]
  note tour = tour_summary_single
      [where soup = tour_page and p = "[0]" and e = summary_elem
         and s = "ascii ''Ten days.  Hanoi to Saigon.''" and f = "ascii ''Ten days''"]
  note typo = tour_summary_single
      [where soup = typographic_page and p = "[0]" and e = typographic_elem and x = ?out]
  from empty n have r1: "parse_tour_itinerary_description empty_page = [[]]" by blast
  from tour have r2: "length (parse_tour_itinerary_description tour_page) = 1" by blast
  from tour m have r3: "0x2E \<notin> set (ascii ''Ten days'')" by blast
  from typo tf have "parse_tour_itinerary_description typographic_page =
      [join (ascii ''. '')
         (filter (\<lambda>s. s \<noteq> [])
            (map strip (split_char 0x2E (concat (map normalize_char (get_text typographic_elem))))))]"
    by blast
  then have r4: "parse_tour_itinerary_description typographic_page = [?out]"
    unfolding tn tj .
  then have r5: "?out \<in> set (parse_tour_itinerary_description typographic_page)" by simp
  from typo r5 have r6: "set ?out \<inter> target_chars = {}" by blast
  from n f g sp v m r1 r2 r3 tf tg tn r4 r5 r6 show ?thesis by blast
qed

text \<open>
  C8: when the tree has neither the dates-accordion block nor an accordion block, the
  cruise extractor returns the empty list (and leaves the tree as it is); when it has no
  tour-itinerary section, the tour extractor returns the empty list. The cruise extractor
  never raises: on every tree it returns a list of records, and every round of its loop
  returns; an item with fewer than two child blocks and an item whose day heading has no
  day number are skipped. The tour extractor has no operation that can raise.
\<close>

theorem missing_markup_is_no_error:
  "(bs_find [ascii ''div''] [ascii ''grid-item-block-dates-accordion''] soup = None \<and>
    bs_find [ascii ''div''] [ascii ''accordion-block''] soup = None \<longrightarrow>
      parse_cruise_itinerary_days nd soup = Inr ([], soup)) \<and>
   (bs_find [ascii ''section''] [ascii ''ao-clp-custom-tdp-itinerary''] soup = None \<longrightarrow>
      parse_tour_itinerary_days nd soup = []) \<and>
   (\<exists>days soup'. parse_cruise_itinerary_days nd soup = Inr (days, soup')) \<and>
   (\<exists>r item'. cruise_item nd item = Inr (r, item')) \<and>
   (length (bs_find_all_children [ascii ''div''] [] item) < 2 \<longrightarrow>
      cruise_item nd item = Inr (None, item)) \<and>
   (bs_find_all_children [ascii ''div''] [] item = (p1, d1) # (p2, d2) # others \<and>
    cruise_day nd d1 = None \<longrightarrow>
      cruise_item nd item = Inr (None, item))"
proof -
  have "parse_cruise_itinerary_days nd soup = Inr ([], soup)"
    if "bs_find [ascii ''div''] [ascii ''grid-item-block-dates-accordion''] soup = None"
      and "bs_find [ascii ''div''] [ascii ''accordion-block''] soup = None"
    using that by (simp add: parse_cruise_itinerary_days_def)
  moreover have "parse_tour_itinerary_days nd soup = []"
    if "bs_find [ascii ''section''] [ascii ''ao-clp-custom-tdp-itinerary''] soup = None"
    using that by (simp add: parse_tour_itinerary_days_def)
  moreover have "cruise_item nd item = Inr (None, item)"
    if "bs_find_all_children [ascii ''div''] [] item = (p1, d1) # (p2, d2) # others"
      and "cruise_day nd d1 = None"
    using that by (simp add: cruise_item_def py_index_def)
  ultimately show ?thesis
    using parse_cruise_total [of nd soup] cruise_item_total [of nd item]
      cruise_item_few_divs [of item nd]
    by blast
qed

theorem missing_markup_is_no_error_witness:
  "bs_find [ascii ''div''] [ascii ''grid-item-block-dates-accordion''] empty_page = None \<and>
   bs_find [ascii ''div''] [ascii ''accordion-block''] empty_page = None \<and>
   parse_cruise_itinerary_days no_other_digits empty_page = Inr ([], empty_page) \<and>
   bs_find [ascii ''section''] [ascii ''ao-clp-custom-tdp-itinerary''] empty_page = None \<and>
   parse_tour_itinerary_days no_other_digits empty_page = [] \<and>
   length (bs_find_all_children [ascii ''div''] [] stub_item) < 2 \<and>
   cruise_item no_other_digits stub_item = Inr (None, stub_item) \<and>
   parse_cruise_itinerary_days no_other_digits mixed_page
     = Inr ([sea_day, cozumel_day], mixed_page)"
proof -
  have a: "bs_find [ascii ''div''] [ascii ''grid-item-block-dates-accordion''] empty_page = None"
    "bs_find [ascii ''div''] [ascii ''accordion-block''] empty_page = None"
    "bs_find [ascii ''section''] [ascii ''ao-clp-custom-tdp-itinerary''] empty_page = None"
    by (simp_all add: empty_page_def tree_eval)
  have s: "length (bs_find_all_children [ascii ''div''] [] stub_item) < 2"
    by (simp add: stub_item_def tree_eval)
  have m: "parse_cruise_itinerary_days no_other_digits mixed_page
     = Inr ([sea_day, cozumel_day], mixed_page)"
    by (rule mixed_page_days)
  note t = missing_markup_is_no_error
      [where soup = empty_page and nd = no_other_digits and item = stub_item]
  from t a have r1: "parse_cruise_itinerary_days no_other_digits empty_page = Inr ([], empty_page)"
    by blast
  from t a have r2: "parse_tour_itinerary_days no_other_digits empty_page = []"
    by blast
  from t s have r3: "cruise_item no_other_digits stub_item = Inr (None, stub_item)"
    by blast
  from a s m r1 r2 r3 show ?thesis by blast
qed




text \<open>
  C10: when the itinerary description element is present and its text is not empty and
  ends with \<open>.\<close>, the single string of the tour summary does not end with \<open>.\<close>: it is empty
  or its last character is another one.
\<close>

theorem tour_summary_no_final_period:
  assumes "bs_find [ascii ''div''] [ascii ''ao-clp-custom-tdp-itinerary__description''] soup = Some (p, e)"
    and "get_text e \<noteq> []" and "last (get_text e) = 0x2E"
  shows "\<exists>s. parse_tour_itinerary_description soup = [s] \<and> (s = [] \<or> last s \<noteq> 0x2E)"
proof -
  let ?frags = "filter (\<lambda>s. s \<noteq> []) (map strip (split_char 0x2E (clean_str (get_text e))))"
  have "q \<noteq> [] \<and> 0x2E \<notin> set q" if "q \<in> set ?frags" for q
  proof -
    from that obtain f where f: "f \<in> set (split_char 0x2E (clean_str (get_text e)))" "q = strip f" "q \<noteq> []"
      by auto
    from f(1) have "0x2E \<notin> set f" by (rule split_char_no_sep)
    with set_strip [of f] f(2) have "0x2E \<notin> set q" by auto
    with f(3) show ?thesis by simp
  qed
  then have "join (ascii ''. '') ?frags = [] \<or> last (join (ascii ''. '') ?frags) \<noteq> 0x2E"
    by (rule join_no_final_sep)
  moreover have "parse_tour_itinerary_description soup = [join (ascii ''. '') ?frags]"
    using assms(1) by (simp add: parse_tour_itinerary_description_def filter_strip_sentences Let_def)
  ultimately show ?thesis by simp
qed

theorem tour_summary_no_final_period_witness:
  "bs_find [ascii ''div''] [ascii ''ao-clp-custom-tdp-itinerary__description''] tour_page
     = Some ([0], summary_elem) \<and>
   get_text summary_elem = ascii ''Ten days.  Hanoi to Saigon.'' \<and>
   get_text summary_elem \<noteq> [] \<and> last (get_text summary_elem) = 0x2E \<and>
   (\<exists>s. parse_tour_itinerary_description tour_page = [s] \<and> (s = [] \<or> last s \<noteq> 0x2E)) \<and>
   parse_tour_itinerary_description tour_page = [ascii ''Ten days. Hanoi to Saigon''] \<and>
   last (ascii ''Ten days. Hanoi to Saigon'') = 0x6E"
proof -
  have f: "bs_find [ascii ''div''] [ascii ''ao-clp-custom-tdp-itinerary__description''] tour_page
             = Some ([0], summary_elem)"
    by (simp add: tour_page_def summary_elem_def hoi_an_item_def silent_item_def tree_eval)
  have g: "get_text summary_elem = ascii ''Ten days.  Hanoi to Saigon.''"
    by (simp add: summary_elem_def tree_eval)
  have ne: "get_text summary_elem \<noteq> []" and l: "last (get_text summary_elem) = 0x2E"
    unfolding g by (simp_all add: ascii_def)
  have v: "parse_tour_itinerary_description tour_page = [ascii ''Ten days. Hanoi to Saigon'']"
    by (rule tour_page_summary)
  have c: "last (ascii ''Ten days. Hanoi to Saigon'') = 0x6E"
    by (simp add: ascii_def)
  note r = tour_summary_no_final_period [OF f ne l]
  from f g ne l r v c show ?thesis by blast
qed

end
